theory Spec2Isabelle
  imports Main "HOL-Library.Word"
begin

unbundle bit_operations_syntax

section \<open>The environment of the program\<close>

text \<open>
  AetherDrive is a Node.js library of three classes: \<open>Encryption\<close> (lib/encryption.js),
  \<open>Storage\<close> (lib/storage.js) and \<open>FileManager\<close> (lib/fileManager.js). Every method
  is an \<open>async\<close> function awaited to completion, so a method is modelled as a function
  from the state before the call to a result and the state after it. A thrown
  \<open>Error\<close> is the result \<open>Inl e\<close>; the state returned with it holds the effects that
  happened before the throw.
\<close>

type_synonym byte = "8 word"
type_synonym bytes = "byte list"

text \<open>
  The part of the machine the methods touch: the file system (a file is the byte
  content stored under its path string; directories are not part of it), the random
  source read by \<open>crypto.randomBytes\<close>, the identifiers \<open>uuidv4()\<close> will return, and
  the clock read by \<open>new Date()\<close>. The writes of lib/encryption.js and of the uploads
  are taken to succeed; for \<open>Storage.downloadFile\<close> the paths the machine refuses are
  a parameter (\<open>node_fs\<close> below).
\<close>

record world =
  fs :: "string \<rightharpoonup> bytes"
  rng :: "nat \<Rightarrow> byte"
  uuids :: "nat \<Rightarrow> string"
  now :: nat

text \<open>
  A JavaScript \<open>Error\<close>. The library errors carry what the \<open>catch\<close> blocks look at
  (\<open>error.code === 'ENOENT'\<close>); an error made by \<open>new Error(`prefix: ${error.message}`)\<close>
  is the constructor of its prefix applied to the error whose message it embeds, and has
  no \<open>code\<close>.
\<close>

datatype crypto_error = Invalid_IV | Invalid_key_length | Wrong_final_block_length | Bad_decrypt

datatype error =
    ENOENT string
  | Crypto crypto_error
  | EISDIR string
  | Ipfs_error string
  | File_not_found string
  | Failed_to_encrypt error
  | Failed_to_decrypt error
  | Decryption_failed error
  | Failed_to_upload error
  | Failed_to_download error
  | Failed_to_delete error
  | Upload_not_implemented string
  | Download_not_implemented string
  | Deletion_not_implemented string
  | Unsupported_storage_type string

fun code_is_ENOENT :: "error \<Rightarrow> bool" where
  "code_is_ENOENT (ENOENT p) = True"
| "code_is_ENOENT e = False"

text \<open>The \<open>options\<close> object of the methods; an absent property is \<open>None\<close>.\<close>

record options =
  outputPath :: "string option"
  fileId :: "string option"
  contentType :: "string option"
  encrypted :: "bool option"

definition no_options :: options where
  "no_options = \<lparr>outputPath = None, fileId = None, contentType = None, encrypted = None\<rparr>"

text \<open>
  \<open>a || b\<close> for a string property \<open>a\<close>: \<open>undefined\<close> and the empty string are falsy.
\<close>

definition or_string :: "string option \<Rightarrow> string \<Rightarrow> string" where
  "or_string a b = (case a of None \<Rightarrow> b | Some s \<Rightarrow> if s = [] then b else s)"

definition or_bool :: "bool option \<Rightarrow> bool \<Rightarrow> bool" where
  "or_bool a b = (case a of None \<Rightarrow> b | Some v \<Rightarrow> if v then v else b)"

definition fs_access :: "string \<Rightarrow> world \<Rightarrow> error + unit" where
  "fs_access p w = (case fs w p of None \<Rightarrow> Inl (ENOENT p) | Some c \<Rightarrow> Inr ())"

definition fs_readFile :: "string \<Rightarrow> world \<Rightarrow> error + bytes" where
  "fs_readFile p w = (case fs w p of None \<Rightarrow> Inl (ENOENT p) | Some c \<Rightarrow> Inr c)"

definition fs_writeFile :: "string \<Rightarrow> bytes \<Rightarrow> world \<Rightarrow> world" where
  "fs_writeFile p c w = w\<lparr>fs := (fs w)(p \<mapsto> c)\<rparr>"

definition fs_remove :: "string \<Rightarrow> world \<Rightarrow> world" where
  "fs_remove p w = w\<lparr>fs := (fs w)(p := None)\<rparr>"

definition fs_stat_size :: "string \<Rightarrow> world \<Rightarrow> error + nat" where
  "fs_stat_size p w = (case fs w p of None \<Rightarrow> Inl (ENOENT p) | Some c \<Rightarrow> Inr (length c))"

text \<open>\<open>crypto.randomBytes(n)\<close>: the next \<open>n\<close> bytes of the random source.\<close>

definition randomBytes :: "nat \<Rightarrow> world \<Rightarrow> bytes \<times> world" where
  "randomBytes n w = (map (rng w) [0..<n], w\<lparr>rng := (\<lambda>i. rng w (i + n))\<rparr>)"

text \<open>A string written to a file: its bytes.\<close>

definition string_bytes :: "string \<Rightarrow> bytes" where
  "string_bytes s = map (\<lambda>c. of_nat (of_char c)) s"

section \<open>The primitives of Node's crypto module\<close>

text \<open>
  Modelled from the spec: the functions of Node's \<open>crypto\<close> module that
  lib/encryption.js calls (\<open>pbkdf2Sync\<close>, \<open>createCipheriv\<close>, \<open>createDecipheriv\<close>
  with \<open>'aes-256-cbc'\<close>) and lib/storage.js calls (\<open>createHash('sha256')\<close>) are not
  code of the repository. The key derivation, the AES-256 block permutation, its
  inverse and the hash are parameters; the spec's "block cipher in CBC mode over the
  plaintext with PKCS-style padding" on 16-byte blocks is written out over them.
\<close>

record crypto =
  pbkdf2Sync :: "string \<Rightarrow> bytes \<Rightarrow> nat \<Rightarrow> nat \<Rightarrow> string \<Rightarrow> bytes"
  aes_encrypt_block :: "bytes \<Rightarrow> bytes \<Rightarrow> bytes"
  aes_decrypt_block :: "bytes \<Rightarrow> bytes \<Rightarrow> bytes"
  sha256_hex :: "bytes \<Rightarrow> string"

text \<open>
  What the library guarantees of these parameters: the derived key has the requested
  length, and under every key the block decryption inverts the block encryption on
  16-byte blocks, which it maps to 16-byte blocks.
\<close>

definition crypto_ok :: "crypto \<Rightarrow> bool" where
  "crypto_ok c \<longleftrightarrow>
     (\<forall>p s i n h. length (pbkdf2Sync c p s i n h) = n) \<and>
     (\<forall>k b. length b = 16 \<longrightarrow>
        length (aes_encrypt_block c k b) = 16 \<and>
        aes_decrypt_block c k (aes_encrypt_block c k b) = b)"

definition xor_bytes :: "bytes \<Rightarrow> bytes \<Rightarrow> bytes" where
  "xor_bytes a b = map (\<lambda>(x, y). x XOR y) (zip a b)"

definition pkcs7_pad :: "bytes \<Rightarrow> bytes" where
  "pkcs7_pad p = (let n = 16 - length p mod 16 in p @ replicate n (of_nat n))"

definition pkcs7_unpad :: "bytes \<Rightarrow> crypto_error + bytes" where
  "pkcs7_unpad q =
     (if q = [] then Inl Wrong_final_block_length
      else let n = unat (last q) in
        if n = 0 \<or> 16 < n \<or> length q < n then Inl Bad_decrypt
        else if drop (length q - n) q \<noteq> replicate n (last q) then Inl Bad_decrypt
        else Inr (take (length q - n) q))"

function cbc_encrypt :: "(bytes \<Rightarrow> bytes) \<Rightarrow> bytes \<Rightarrow> bytes \<Rightarrow> bytes" where
  "cbc_encrypt E prev p =
     (if p = [] then []
      else let c = E (xor_bytes (take 16 p) prev) in c @ cbc_encrypt E c (drop 16 p))"
  by pat_completeness auto
termination
  by (relation "measure (\<lambda>(E, prev, p). length p)") auto

function cbc_decrypt :: "(bytes \<Rightarrow> bytes) \<Rightarrow> bytes \<Rightarrow> bytes \<Rightarrow> bytes" where
  "cbc_decrypt D prev q =
     (if q = [] then []
      else let c = take 16 q in xor_bytes (D c) prev @ cbc_decrypt D c (drop 16 q))"
  by pat_completeness auto
termination
  by (relation "measure (\<lambda>(D, prev, q). length q)") auto

declare cbc_encrypt.simps [simp del] cbc_decrypt.simps [simp del]

text \<open>
  \<open>createCipheriv('aes-256-cbc', key, iv)\<close> and \<open>createDecipheriv\<close> throw on an
  initialization vector that is not 16 bytes or a key that is not 32 bytes; the
  object they return is the pair of key and vector.
\<close>

definition createCipheriv :: "bytes \<Rightarrow> bytes \<Rightarrow> error + bytes \<times> bytes" where
  "createCipheriv k iv =
     (if length iv \<noteq> 16 then Inl (Crypto Invalid_IV)
      else if length k \<noteq> 32 then Inl (Crypto Invalid_key_length)
      else Inr (k, iv))"

definition createDecipheriv :: "bytes \<Rightarrow> bytes \<Rightarrow> error + bytes \<times> bytes" where
  "createDecipheriv k iv = createCipheriv k iv"

text \<open>\<open>Buffer.concat([cipher.update(data), cipher.final()])\<close>.\<close>

definition cipher_update_final :: "crypto \<Rightarrow> bytes \<times> bytes \<Rightarrow> bytes \<Rightarrow> bytes" where
  "cipher_update_final c ci p =
     cbc_encrypt (aes_encrypt_block c (fst ci)) (snd ci) (pkcs7_pad p)"

text \<open>
  \<open>Buffer.concat([decipher.update(data), decipher.final()])\<close>: \<open>final\<close> throws when the
  data is not a positive number of whole blocks or the padding of the last block is
  not valid.
\<close>

definition decipher_update_final :: "crypto \<Rightarrow> bytes \<times> bytes \<Rightarrow> bytes \<Rightarrow> error + bytes" where
  "decipher_update_final c de q =
     (if q = [] \<or> length q mod 16 \<noteq> 0 then Inl (Crypto Wrong_final_block_length)
      else case pkcs7_unpad (cbc_decrypt (aes_decrypt_block c (fst de)) (snd de) q) of
             Inl e \<Rightarrow> Inl (Crypto e)
           | Inr p \<Rightarrow> Inr p)"

section \<open>lib/encryption.js\<close>

record key_salt =
  key :: bytes
  salt :: bytes

text \<open>
  \<open>generateKey(password, salt = null)\<close>. A \<open>Buffer\<close> is truthy whatever its length, so
  \<open>salt || crypto.randomBytes(16)\<close> draws random bytes only for \<open>null\<close>.
\<close>

definition generateKey :: "crypto \<Rightarrow> string \<Rightarrow> bytes option \<Rightarrow> world \<Rightarrow> key_salt \<times> world" where
  "generateKey c password salt0 w =
     (let (useSalt, w') = (case salt0 of None \<Rightarrow> randomBytes 16 w | Some s \<Rightarrow> (s, w));
          k = pbkdf2Sync c password useSalt 100000 32 ''sha256''
      in (\<lparr>key = k, salt = useSalt\<rparr>, w'))"

text \<open>The body of the \<open>try\<close> block of \<open>encryptFile\<close>, with the errors as thrown there.\<close>

definition encryptFile_try ::
  "crypto \<Rightarrow> string \<Rightarrow> string \<Rightarrow> options \<Rightarrow> world \<Rightarrow> (error + string) \<times> world" where
  "encryptFile_try c filePath encryptionKey opts w =
     (case fs_access filePath w of
        Inl e \<Rightarrow> (Inl e, w)
      | Inr u \<Rightarrow>
          let outPath = or_string (outputPath opts) (filePath @ ''.enc'');
              (iv, w1) = randomBytes 16 w;
              (ks, w2) = generateKey c encryptionKey None w1
          in (case createCipheriv (key ks) iv of
                Inl e \<Rightarrow> (Inl e, w2)
              | Inr ci \<Rightarrow>
                  (case fs_readFile filePath w2 of
                     Inl e \<Rightarrow> (Inl e, w2)
                   | Inr fileContent \<Rightarrow>
                       (let encryptedData = salt ks @ iv @ cipher_update_final c ci fileContent
                        in (Inr outPath, fs_writeFile outPath encryptedData w2)))))"

definition encryptFile ::
  "crypto \<Rightarrow> string \<Rightarrow> string \<Rightarrow> options \<Rightarrow> world \<Rightarrow> (error + string) \<times> world" where
  "encryptFile c filePath encryptionKey opts w =
     (case encryptFile_try c filePath encryptionKey opts w of
        (Inl e, w') \<Rightarrow>
          (if code_is_ENOENT e then (Inl (File_not_found filePath), w')
           else (Inl (Failed_to_encrypt e), w'))
      | (Inr p, w') \<Rightarrow> (Inr p, w'))"

text \<open>\<open>filePath.replace(/\.enc$/, '.dec')\<close>.\<close>

definition ends_with :: "string \<Rightarrow> string \<Rightarrow> bool" where
  "ends_with p s \<longleftrightarrow> length s \<le> length p \<and> drop (length p - length s) p = s"

definition replace_enc :: "string \<Rightarrow> string" where
  "replace_enc p = (if ends_with p ''.enc'' then take (length p - 4) p @ ''.dec'' else p)"

text \<open>
  The body of the outer \<open>try\<close> block of \<open>decryptFile\<close>. The inner \<open>try\<close> wraps what
  the decipher throws as "Decryption failed, possibly due to incorrect password";
  \<open>createDecipheriv\<close> is called before it.
\<close>

definition decryptFile_try ::
  "crypto \<Rightarrow> string \<Rightarrow> string \<Rightarrow> options \<Rightarrow> world \<Rightarrow> (error + string) \<times> world" where
  "decryptFile_try c filePath encryptionKey opts w =
     (case fs_access filePath w of
        Inl e \<Rightarrow> (Inl e, w)
      | Inr u \<Rightarrow>
          let outPath = or_string (outputPath opts) (replace_enc filePath)
          in (case fs_readFile filePath w of
                Inl e \<Rightarrow> (Inl e, w)
              | Inr encryptedData \<Rightarrow>
                  (let salt1 = take 16 encryptedData;
                       iv = take 16 (drop 16 encryptedData);
                       encryptedContent = drop 32 encryptedData;
                       (ks, w1) = generateKey c encryptionKey (Some salt1) w
                   in (case createDecipheriv (key ks) iv of
                         Inl e \<Rightarrow> (Inl e, w1)
                       | Inr de \<Rightarrow>
                           (case decipher_update_final c de encryptedContent of
                              Inl cryptoError \<Rightarrow> (Inl (Decryption_failed cryptoError), w1)
                            | Inr decryptedData \<Rightarrow>
                                (Inr outPath, fs_writeFile outPath decryptedData w1))))))"

definition decryptFile ::
  "crypto \<Rightarrow> string \<Rightarrow> string \<Rightarrow> options \<Rightarrow> world \<Rightarrow> (error + string) \<times> world" where
  "decryptFile c filePath encryptionKey opts w =
     (case decryptFile_try c filePath encryptionKey opts w of
        (Inl e, w') \<Rightarrow>
          (if code_is_ENOENT e then (Inl (File_not_found filePath), w')
           else (Inl (Failed_to_decrypt e), w'))
      | (Inr p, w') \<Rightarrow> (Inr p, w'))"

section \<open>lib/storage.js\<close>

text \<open>
  A JavaScript \<open>Map\<close> keeps its entries in insertion order, one per key: \<open>set\<close> on a
  key that is present replaces the value in place, otherwise the entry is appended.
\<close>

definition Map_get :: "('k \<times> 'v) list \<Rightarrow> 'k \<Rightarrow> 'v option" where
  "Map_get m k = map_of m k"

fun Map_set :: "'k \<Rightarrow> 'v \<Rightarrow> ('k \<times> 'v) list \<Rightarrow> ('k \<times> 'v) list" where
  "Map_set k v [] = [(k, v)]"
| "Map_set k v ((k', v') # m) = (if k' = k then (k, v) # m else (k', v') # Map_set k v m)"

definition Map_delete :: "'k \<Rightarrow> ('k \<times> 'v) list \<Rightarrow> ('k \<times> 'v) list" where
  "Map_delete k m = filter (\<lambda>e. fst e \<noteq> k) m"

definition Map_values :: "('k \<times> 'v) list \<Rightarrow> 'v list" where
  "Map_values m = map snd m"

text \<open>
  The IPFS client (package \<open>ipfs-http-client\<close>) is a remote service: its three calls
  are parameters over the state \<open>'i\<close> of the service, and each may throw.
\<close>

record 'i ipfs_client =
  ipfs_add :: "bytes \<Rightarrow> options \<Rightarrow> 'i \<Rightarrow> (error + string) \<times> 'i"
  ipfs_cat :: "string \<Rightarrow> options \<Rightarrow> 'i \<Rightarrow> (error + bytes list) \<times> 'i"
  ipfs_pin_rm :: "string \<Rightarrow> options \<Rightarrow> 'i \<Rightarrow> (error + unit) \<times> 'i"

record stored_file =
  sf_id :: string
  sf_path :: string
  sf_content :: bytes
  sf_originalPath :: string
  sf_size :: nat
  sf_createdAt :: nat

record 'i storage =
  storageType :: string
  tempDir :: string
  files :: "(string \<times> stored_file) list"
  ipfs :: "'i option"
  usingMock :: bool

text \<open>
  The constructor with \<open>_initializeStorage\<close>: \<open>client\<close> is the connected IPFS client
  when the package is installed and \<open>create\<close> succeeded; \<open>dir\<close> is the fresh temporary
  directory.
\<close>

definition Storage_new :: "string \<Rightarrow> string \<Rightarrow> 'i option \<Rightarrow> error + 'i storage" where
  "Storage_new type dir client =
     (if type = ''ipfs'' then
        (case client of
           Some i \<Rightarrow> Inr \<lparr>storageType = type, tempDir = dir, files = [], ipfs = Some i,
                         usingMock = False\<rparr>
         | None \<Rightarrow> Inr \<lparr>storageType = type, tempDir = dir, files = [], ipfs = None,
                       usingMock = True\<rparr>)
      else Inl (Unsupported_storage_type type))"

definition generateMockFileId :: "crypto \<Rightarrow> bytes \<Rightarrow> string" where
  "generateMockFileId c content = ''mock-'' @ take 8 (sha256_hex c content)"

text \<open>\<open>path.join(dir, name)\<close>, for a name without separators.\<close>

definition path_join :: "string \<Rightarrow> string \<Rightarrow> string" where
  "path_join dir f = dir @ ''/'' @ f"

definition mockUploadFile ::
  "crypto \<Rightarrow> string \<Rightarrow> bytes \<Rightarrow> options \<Rightarrow> 'i storage \<times> world \<Rightarrow>
   string \<times> 'i storage \<times> world" where
  "mockUploadFile c filePath fileContent opts sw =
     (let st = fst sw; w = snd sw;
          fid = or_string (fileId opts) (generateMockFileId c fileContent);
          storagePath = path_join (tempDir st) fid;
          w1 = fs_writeFile storagePath fileContent w;
          st1 = st\<lparr>files := Map_set fid
                  \<lparr>sf_id = fid, sf_path = storagePath, sf_content = fileContent,
                   sf_originalPath = filePath, sf_size = length fileContent,
                   sf_createdAt = now w1\<rparr> (files st)\<rparr>
      in (fid, st1, w1))"

definition Storage_uploadFile_try ::
  "crypto \<Rightarrow> 'i ipfs_client \<Rightarrow> string \<Rightarrow> options \<Rightarrow> 'i storage \<times> world \<Rightarrow>
   (error + string) \<times> 'i storage \<times> world" where
  "Storage_uploadFile_try c cl filePath opts sw =
     (let st = fst sw; w = snd sw in
      case fs_access filePath w of
        Inl e \<Rightarrow> (Inl e, sw)
      | Inr u \<Rightarrow>
         (case fs_readFile filePath w of
            Inl e \<Rightarrow> (Inl e, sw)
          | Inr fileContent \<Rightarrow>
              if storageType st = ''ipfs'' then
                (case (usingMock st, ipfs st) of
                   (False, Some i) \<Rightarrow>
                     (case ipfs_add cl fileContent opts i of
                        (Inr fid, i') \<Rightarrow> (Inr fid, st\<lparr>ipfs := Some i'\<rparr>, w)
                      | (Inl e, i') \<Rightarrow>
                          (let r = mockUploadFile c filePath fileContent opts
                                     (st\<lparr>ipfs := Some i'\<rparr>, w)
                           in (Inr (fst r), snd r)))
                 | _ \<Rightarrow>
                     (let r = mockUploadFile c filePath fileContent opts sw
                      in (Inr (fst r), snd r)))
              else (Inl (Upload_not_implemented (storageType st)), sw)))"

definition Storage_uploadFile ::
  "crypto \<Rightarrow> 'i ipfs_client \<Rightarrow> string \<Rightarrow> options \<Rightarrow> 'i storage \<times> world \<Rightarrow>
   (error + string) \<times> 'i storage \<times> world" where
  "Storage_uploadFile c cl filePath opts sw =
     (case Storage_uploadFile_try c cl filePath opts sw of
        (Inl e, sw') \<Rightarrow>
          (if code_is_ENOENT e then (Inl (File_not_found filePath), sw') else (Inl e, sw'))
      | (Inr fid, sw') \<Rightarrow> (Inr fid, sw'))"

text \<open>
  \<open>downloadFile\<close> writes to a destination the caller chooses, and the machine refuses
  some paths: \<open>fs.writeFile\<close> the empty path, a directory or a path it may not write,
  \<open>fs.ensureDir\<close> a directory under a regular file. Which paths the machine refuses
  in a state, and with which error, is a parameter: \<open>ensureDir_error F p w\<close> is the
  error of \<open>fs.ensureDir(path.dirname(p))\<close> and \<open>writeFile_error F p w\<close> the error of
  \<open>fs.writeFile(p, ...)\<close>, if there is one. The empty path is refused by every
  machine.
\<close>

record node_fs =
  ensureDir_error :: "string \<Rightarrow> world \<Rightarrow> error option"
  writeFile_error :: "string \<Rightarrow> world \<Rightarrow> error option"

definition fs_ensureDir_dirname :: "node_fs \<Rightarrow> string \<Rightarrow> world \<Rightarrow> error + unit" where
  "fs_ensureDir_dirname F p w =
     (case ensureDir_error F p w of Some e \<Rightarrow> Inl e | None \<Rightarrow> Inr ())"

definition fs_writeFile_checked :: "node_fs \<Rightarrow> string \<Rightarrow> bytes \<Rightarrow> world \<Rightarrow> error + world" where
  "fs_writeFile_checked F p content w =
     (if p = [] then Inl (ENOENT p)
      else case writeFile_error F p w of
             Some e \<Rightarrow> Inl e
           | None \<Rightarrow> Inr (fs_writeFile p content w))"

text \<open>
  \<open>_mockDownloadFile\<close>: an id that is not in \<open>files\<close> gets a file made up on the
  spot ("If the file is not in our storage, create a mock file"). The method throws
  what \<open>fs.writeFile\<close> throws.
\<close>

definition mockDownloadFile ::
  "node_fs \<Rightarrow> string \<Rightarrow> string \<Rightarrow> options \<Rightarrow> 'i storage \<times> world \<Rightarrow>
   (error + string) \<times> 'i storage \<times> world" where
  "mockDownloadFile F fid destination opts sw =
     (let st = fst sw; w = snd sw;
          content = (case Map_get (files st) fid of
                       None \<Rightarrow> string_bytes (''Mock content for file ID: '' @ fid)
                     | Some fileInfo \<Rightarrow> sf_content fileInfo)
      in case fs_writeFile_checked F destination content w of
           Inl e \<Rightarrow> (Inl e, st, w)
         | Inr w' \<Rightarrow> (Inr destination, st, w'))"

text \<open>
  The body of the \<open>try\<close> block of \<open>downloadFile\<close>. \<open>Inl e\<close> is an error thrown inside
  the block, which the \<open>catch\<close> rethrows as "Failed to download file: ...". \<open>Inr r\<close> is
  what the block returns: the destination after the awaited write of the IPFS
  content, or the promise of \<open>_mockDownloadFile\<close>, which is returned without \<open>await\<close>,
  so that its rejection does not pass through the \<open>catch\<close>. The inner \<open>try\<close> around
  the IPFS branch turns an error of \<open>ipfs.cat\<close> or of its write into the call of
  \<open>_mockDownloadFile\<close>.
\<close>

definition Storage_downloadFile_try ::
  "node_fs \<Rightarrow> 'i ipfs_client \<Rightarrow> string \<Rightarrow> string \<Rightarrow> options \<Rightarrow> 'i storage \<times> world \<Rightarrow>
   (error + (error + string)) \<times> 'i storage \<times> world" where
  "Storage_downloadFile_try F cl fid destination opts sw =
     (let st = fst sw; w = snd sw in
      case fs_ensureDir_dirname F destination w of
        Inl e \<Rightarrow> (Inl e, sw)
      | Inr u \<Rightarrow>
          if storageType st = ''ipfs'' then
            (case (usingMock st, ipfs st) of
               (False, Some i) \<Rightarrow>
                 (case ipfs_cat cl fid opts i of
                    (Inr chunks, i') \<Rightarrow>
                      (case fs_writeFile_checked F destination (concat chunks) w of
                         Inr w' \<Rightarrow> (Inr (Inr destination), st\<lparr>ipfs := Some i'\<rparr>, w')
                       | Inl e \<Rightarrow>
                           (let r = mockDownloadFile F fid destination opts
                                      (st\<lparr>ipfs := Some i'\<rparr>, w)
                            in (Inr (fst r), snd r)))
                  | (Inl e, i') \<Rightarrow>
                      (let r = mockDownloadFile F fid destination opts
                                 (st\<lparr>ipfs := Some i'\<rparr>, w)
                       in (Inr (fst r), snd r)))
             | _ \<Rightarrow>
                 (let r = mockDownloadFile F fid destination opts sw in (Inr (fst r), snd r)))
          else (Inl (Download_not_implemented (storageType st)), sw))"

definition Storage_downloadFile ::
  "node_fs \<Rightarrow> 'i ipfs_client \<Rightarrow> string \<Rightarrow> string \<Rightarrow> options \<Rightarrow> 'i storage \<times> world \<Rightarrow>
   (error + string) \<times> 'i storage \<times> world" where
  "Storage_downloadFile F cl fid destination opts sw =
     (case Storage_downloadFile_try F cl fid destination opts sw of
        (Inl e, sw') \<Rightarrow> (Inl (Failed_to_download e), sw')
      | (Inr r, sw') \<Rightarrow> (r, sw'))"

definition mockDeleteFile ::
  "string \<Rightarrow> options \<Rightarrow> 'i storage \<times> world \<Rightarrow> bool \<times> 'i storage \<times> world" where
  "mockDeleteFile fid opts sw =
     (let st = fst sw; w = snd sw in
      case Map_get (files st) fid of
        Some fileInfo \<Rightarrow>
          (True, st\<lparr>files := Map_delete fid (files st)\<rparr>, fs_remove (sf_path fileInfo) w)
      | None \<Rightarrow> (True, st, w))"

definition Storage_deleteFile_try ::
  "'i ipfs_client \<Rightarrow> string \<Rightarrow> options \<Rightarrow> 'i storage \<times> world \<Rightarrow>
   (error + bool) \<times> 'i storage \<times> world" where
  "Storage_deleteFile_try cl fid opts sw =
     (let st = fst sw; w = snd sw in
      if storageType st = ''ipfs'' then
        (case (usingMock st, ipfs st) of
           (False, Some i) \<Rightarrow>
             (case ipfs_pin_rm cl fid opts i of
                (Inr u, i') \<Rightarrow> (Inr True, st\<lparr>ipfs := Some i'\<rparr>, w)
              | (Inl e, i') \<Rightarrow>
                  (let r = mockDeleteFile fid opts (st\<lparr>ipfs := Some i'\<rparr>, w)
                   in (Inr (fst r), snd r)))
         | _ \<Rightarrow> (let r = mockDeleteFile fid opts sw in (Inr (fst r), snd r)))
      else (Inl (Deletion_not_implemented (storageType st)), sw))"

definition Storage_deleteFile ::
  "'i ipfs_client \<Rightarrow> string \<Rightarrow> options \<Rightarrow> 'i storage \<times> world \<Rightarrow>
   (error + bool) \<times> 'i storage \<times> world" where
  "Storage_deleteFile cl fid opts sw =
     (case Storage_deleteFile_try cl fid opts sw of
        (Inl e, sw') \<Rightarrow> (Inl (Failed_to_delete e), sw')
      | (Inr b, sw') \<Rightarrow> (Inr b, sw'))"

section \<open>lib/fileManager.js\<close>

text \<open>
  The storage object handed to the constructor is used through three of its methods
  only (\<open>Storage\<close> and the tests' \<open>MockStorage\<close> both provide them): they are the
  fields of \<open>storage_class\<close>, over the state \<open>'s\<close> of the object.
\<close>

record 's storage_class =
  st_uploadFile :: "string \<Rightarrow> options \<Rightarrow> 's \<times> world \<Rightarrow> (error + string) \<times> 's \<times> world"
  st_downloadFile ::
    "string \<Rightarrow> string \<Rightarrow> options \<Rightarrow> 's \<times> world \<Rightarrow> (error + string) \<times> 's \<times> world"
  st_deleteFile :: "string \<Rightarrow> options \<Rightarrow> 's \<times> world \<Rightarrow> (error + bool) \<times> 's \<times> world"

definition Storage_class ::
  "crypto \<Rightarrow> node_fs \<Rightarrow> 'i ipfs_client \<Rightarrow> 'i storage storage_class" where
  "Storage_class c F cl =
     \<lparr>st_uploadFile = Storage_uploadFile c cl,
      st_downloadFile = Storage_downloadFile F cl,
      st_deleteFile = Storage_deleteFile cl\<rparr>"

record file_info =
  fi_id :: string
  fi_storageId :: string
  fi_name :: string
  fi_size :: nat
  fi_contentType :: string
  fi_createdAt :: nat
  fi_encrypted :: bool

record 's fileManager =
  storage :: 's
  fileRegistry :: "(string \<times> file_info) list"

definition FileManager_new :: "'s \<Rightarrow> 's fileManager" where
  "FileManager_new s = \<lparr>storage = s, fileRegistry = []\<rparr>"

text \<open>\<open>generateFileId()\<close> returns \<open>uuidv4()\<close>: the next identifier of the supply.\<close>

definition generateFileId :: "world \<Rightarrow> string \<times> world" where
  "generateFileId w = (uuids w 0, w\<lparr>uuids := (\<lambda>n. uuids w (Suc n))\<rparr>)"

text \<open>\<open>path.basename(p)\<close>: the last component, trailing separators dropped.\<close>

definition basename :: "string \<Rightarrow> string" where
  "basename p =
     rev (takeWhile (\<lambda>ch. ch \<noteq> CHR ''/'') (dropWhile (\<lambda>ch. ch = CHR ''/'') (rev p)))"

definition FileManager_uploadFile_try ::
  "'s storage_class \<Rightarrow> string \<Rightarrow> options \<Rightarrow> 's fileManager \<times> world \<Rightarrow>
   (error + string) \<times> 's fileManager \<times> world" where
  "FileManager_uploadFile_try S filePath opts mw =
     (let fm = fst mw; w = snd mw in
      case fs_access filePath w of
        Inl e \<Rightarrow> (Inl e, mw)
      | Inr u \<Rightarrow>
         (case st_uploadFile S filePath opts (storage fm, w) of
            (Inl e, s1, w1) \<Rightarrow> (Inl e, fm\<lparr>storage := s1\<rparr>, w1)
          | (Inr sid, s1, w1) \<Rightarrow>
              (let (fid, w2) =
                     (case fileId opts of
                        None \<Rightarrow> generateFileId w1
                      | Some s \<Rightarrow> if s = [] then generateFileId w1 else (s, w1))
               in case fs_stat_size filePath w2 of
                    Inl e \<Rightarrow> (Inl e, fm\<lparr>storage := s1\<rparr>, w2)
                  | Inr sz \<Rightarrow>
                      (Inr fid,
                       fm\<lparr>storage := s1,
                          fileRegistry := Map_set fid
                            \<lparr>fi_id = fid, fi_storageId = sid, fi_name = basename filePath,
                             fi_size = sz,
                             fi_contentType =
                               or_string (contentType opts) ''application/octet-stream'',
                             fi_createdAt = now w2,
                             fi_encrypted = or_bool (encrypted opts) False\<rparr>
                            (fileRegistry fm)\<rparr>,
                       w2))))"

definition FileManager_uploadFile ::
  "'s storage_class \<Rightarrow> string \<Rightarrow> options \<Rightarrow> 's fileManager \<times> world \<Rightarrow>
   (error + string) \<times> 's fileManager \<times> world" where
  "FileManager_uploadFile S filePath opts mw =
     (case FileManager_uploadFile_try S filePath opts mw of
        (Inl e, mw') \<Rightarrow> (Inl (Failed_to_upload e), mw')
      | (Inr fid, mw') \<Rightarrow> (Inr fid, mw'))"

definition FileManager_downloadFile ::
  "'s storage_class \<Rightarrow> string \<Rightarrow> string \<Rightarrow> options \<Rightarrow> 's fileManager \<times> world \<Rightarrow>
   (error + string) \<times> 's fileManager \<times> world" where
  "FileManager_downloadFile S fid destination opts mw =
     (let fm = fst mw; w = snd mw;
          r = (case Map_get (fileRegistry fm) fid of
                 None \<Rightarrow> st_downloadFile S fid destination opts (storage fm, w)
               | Some fileInfo \<Rightarrow>
                   st_downloadFile S (fi_storageId fileInfo) destination opts (storage fm, w))
      in case r of
           (Inl e, s1, w1) \<Rightarrow> (Inl (Failed_to_download e), fm\<lparr>storage := s1\<rparr>, w1)
         | (Inr p, s1, w1) \<Rightarrow> (Inr p, fm\<lparr>storage := s1\<rparr>, w1))"

definition FileManager_deleteFile ::
  "'s storage_class \<Rightarrow> string \<Rightarrow> options \<Rightarrow> 's fileManager \<times> world \<Rightarrow>
   (error + bool) \<times> 's fileManager \<times> world" where
  "FileManager_deleteFile S fid opts mw =
     (let fm = fst mw; w = snd mw in
      case Map_get (fileRegistry fm) fid of
        None \<Rightarrow>
          (case st_deleteFile S fid opts (storage fm, w) of
             (Inl e, s1, w1) \<Rightarrow> (Inl (Failed_to_delete e), fm\<lparr>storage := s1\<rparr>, w1)
           | (Inr b, s1, w1) \<Rightarrow> (Inr b, fm\<lparr>storage := s1\<rparr>, w1))
      | Some fileInfo \<Rightarrow>
          (case st_deleteFile S (fi_storageId fileInfo) opts (storage fm, w) of
             (Inl e, s1, w1) \<Rightarrow> (Inl (Failed_to_delete e), fm\<lparr>storage := s1\<rparr>, w1)
           | (Inr b, s1, w1) \<Rightarrow>
               (Inr b,
                fm\<lparr>storage := s1, fileRegistry := Map_delete fid (fileRegistry fm)\<rparr>, w1)))"

definition FileManager_listFiles ::
  "options \<Rightarrow> 's fileManager \<times> world \<Rightarrow> (error + file_info list) \<times> 's fileManager \<times> world" where
  "FileManager_listFiles opts mw = (Inr (Map_values (fileRegistry (fst mw))), mw)"

section \<open>Notions used to state the properties\<close>

text \<open>
  The length of the cipher output for a plaintext of \<open>n\<close> bytes, in the words of the
  specification: the smallest multiple of the block size strictly greater than \<open>n\<close>
  when \<open>n\<close> is a multiple of the block size, else \<open>n\<close> rounded up to the next multiple.
\<close>

definition ciphertextLength :: "nat \<Rightarrow> nat" where
  "ciphertextLength n =
     (if n mod 16 = 0 then (n div 16 + 1) * 16 else ((n + 15) div 16) * 16)"

text \<open>
  The shape of what \<open>uuidv4()\<close> returns: 36 characters, hyphens after the groups of
  8, 4, 4 and 4, and the version digit 4.
\<close>

definition is_uuid_v4 :: "string \<Rightarrow> bool" where
  "is_uuid_v4 s \<longleftrightarrow>
     length s = 36 \<and> s ! 8 = CHR ''-'' \<and> s ! 13 = CHR ''-'' \<and> s ! 14 = CHR ''4'' \<and>
     s ! 18 = CHR ''-'' \<and> s ! 23 = CHR ''-''"

text \<open>
  The registry as \<open>uploadFile\<close> builds it: every record is stored under its own \<open>id\<close>,
  and no key occurs twice.
\<close>

definition registry_ok :: "(string \<times> file_info) list \<Rightarrow> bool" where
  "registry_ok m \<longleftrightarrow> distinct (map fst m) \<and> list_all (\<lambda>e. fi_id (snd e) = fst e) m"

text \<open>A sequence of calls on one \<open>FileManager\<close>, each awaited before the next.\<close>

datatype call =
    Upload string options
  | Download string string options
  | Delete string options
  | List options

datatype outcome =
    Uploaded "error + string"
  | Downloaded "error + string"
  | Deleted "error + bool"
  | Listed "error + file_info list"

fun FileManager_call ::
  "'s storage_class \<Rightarrow> call \<Rightarrow> 's fileManager \<times> world \<Rightarrow> outcome \<times> 's fileManager \<times> world" where
  "FileManager_call S (Upload p opts) mw =
     (let r = FileManager_uploadFile S p opts mw in (Uploaded (fst r), snd r))"
| "FileManager_call S (Download i d opts) mw =
     (let r = FileManager_downloadFile S i d opts mw in (Downloaded (fst r), snd r))"
| "FileManager_call S (Delete i opts) mw =
     (let r = FileManager_deleteFile S i opts mw in (Deleted (fst r), snd r))"
| "FileManager_call S (List opts) mw =
     (let r = FileManager_listFiles opts mw in (Listed (fst r), snd r))"

fun FileManager_calls ::
  "'s storage_class \<Rightarrow> call list \<Rightarrow> 's fileManager \<times> world \<Rightarrow>
   outcome list \<times> 's fileManager \<times> world" where
  "FileManager_calls S [] mw = ([], mw)"
| "FileManager_calls S (c # cs) mw =
     (let r = FileManager_call S c mw; rs = FileManager_calls S cs (snd r)
      in (fst r # fst rs, snd rs))"

text \<open>The ids of the records \<open>listFiles\<close> returns in a state.\<close>

definition listed_ids :: "'s fileManager \<times> world \<Rightarrow> string list" where
  "listed_ids mw =
     (case fst (FileManager_listFiles no_options mw) of
        Inl e \<Rightarrow> []
      | Inr recs \<Rightarrow> map fi_id recs)"

text \<open>A sequence of calls on one \<open>Storage\<close>, each awaited before the next.\<close>

datatype storage_call =
    Put string options
  | Get string string options
  | Remove string options

datatype storage_outcome =
    Put_done "error + string"
  | Get_done "error + string"
  | Remove_done "error + bool"

fun Storage_call ::
  "crypto \<Rightarrow> node_fs \<Rightarrow> 'i ipfs_client \<Rightarrow> storage_call \<Rightarrow> 'i storage \<times> world \<Rightarrow>
   storage_outcome \<times> 'i storage \<times> world" where
  "Storage_call c F cl (Put p opts) sw =
     (let r = Storage_uploadFile c cl p opts sw in (Put_done (fst r), snd r))"
| "Storage_call c F cl (Get i d opts) sw =
     (let r = Storage_downloadFile F cl i d opts sw in (Get_done (fst r), snd r))"
| "Storage_call c F cl (Remove i opts) sw =
     (let r = Storage_deleteFile cl i opts sw in (Remove_done (fst r), snd r))"

fun Storage_calls ::
  "crypto \<Rightarrow> node_fs \<Rightarrow> 'i ipfs_client \<Rightarrow> storage_call list \<Rightarrow> 'i storage \<times> world \<Rightarrow>
   storage_outcome list \<times> 'i storage \<times> world" where
  "Storage_calls c F cl [] sw = ([], sw)"
| "Storage_calls c F cl (x # xs) sw =
     (let r = Storage_call c F cl x sw; rs = Storage_calls c F cl xs (snd r)
      in (fst r # fst rs, snd rs))"

text \<open>The calls that delete the id \<open>i\<close>.\<close>

fun removes :: "string \<Rightarrow> storage_call \<Rightarrow> bool" where
  "removes i (Remove j opts) = (j = i)"
| "removes i x = False"

text \<open>The store is the local one: there is no IPFS client to ask first.\<close>

definition local_store :: "'i storage \<Rightarrow> bool" where
  "local_store st \<longleftrightarrow> storageType st = ''ipfs'' \<and> (usingMock st \<or> ipfs st = None)"

text \<open>
  The local store keeps the bytes \<open>content\<close> under the id \<open>i\<close>.
\<close>

definition keeps :: "'i storage \<Rightarrow> string \<Rightarrow> bytes \<Rightarrow> bool" where
  "keeps st i content \<longleftrightarrow>
     local_store st \<and> map_option sf_content (Map_get (files st) i) = Some content"

section \<open>A small instance for evaluating the model\<close>

text \<open>
  An instance of the parameters on which the model can be run: a toy key derivation
  and a toy block permutation (not PBKDF2 and AES; they satisfy \<open>crypto_ok\<close>), an IPFS
  client that is unreachable, and a machine with three files.
\<close>

definition key_byte :: "bytes \<Rightarrow> byte" where
  "key_byte k = (case k of [] \<Rightarrow> 0 | x # xs \<Rightarrow> x)"

definition test_crypto :: crypto where
  "test_crypto =
     \<lparr>pbkdf2Sync = (\<lambda>p s i n h. replicate n (of_nat (length p) + key_byte s)),
      aes_encrypt_block = (\<lambda>k b. map (\<lambda>x. x + key_byte k) (rev b)),
      aes_decrypt_block = (\<lambda>k b. rev (map (\<lambda>x. x - key_byte k) b)),
      sha256_hex = (\<lambda>b. replicate 64 (CHR ''a''))\<rparr>"

definition test_ipfs :: "unit ipfs_client" where
  "test_ipfs =
     \<lparr>ipfs_add = (\<lambda>b opts i. (Inl (Ipfs_error ''unreachable''), i)),
      ipfs_cat = (\<lambda>fid opts i. (Inl (Ipfs_error ''unreachable''), i)),
      ipfs_pin_rm = (\<lambda>fid opts i. (Inl (Ipfs_error ''unreachable''), i))\<rparr>"

text \<open>
  A machine that refuses the empty path and the directory /tmp as a file, and an IPFS
  client that stores what it is given under one name and cannot be read back.
\<close>

definition test_fs :: node_fs where
  "test_fs =
     \<lparr>ensureDir_error = (\<lambda>p w. None),
      writeFile_error = (\<lambda>p w. if p = ''/tmp'' then Some (EISDIR p) else None)\<rparr>"

definition flaky_ipfs :: "unit ipfs_client" where
  "flaky_ipfs =
     \<lparr>ipfs_add = (\<lambda>b opts i. (Inr ''QmTest'', i)),
      ipfs_cat = (\<lambda>fid opts i. (Inl (Ipfs_error ''unreachable''), i)),
      ipfs_pin_rm = (\<lambda>fid opts i. (Inl (Ipfs_error ''unreachable''), i))\<rparr>"

definition test_text :: string where
  "test_text = ''This is a test file for AetherDrive integration tests.''"

text \<open>The envelope \<open>encryptFile\<close> writes for the bytes 1, 2, 3 under the password "pw1".\<close>

definition test_envelope :: bytes where
  "test_envelope =
     [16, 17, 18, 19, 20, 21, 22, 23, 24, 25, 26, 27, 28, 29, 30, 31,
      0, 1, 2, 3, 4, 5, 6, 7, 8, 9, 10, 11, 12, 13, 14, 15,
      21, 22, 19, 20, 25, 26, 23, 24, 29, 30, 27, 28, 33, 20, 22, 20]"

definition test_world :: world where
  "test_world =
     \<lparr>fs = [''/tmp/a.txt'' \<mapsto> string_bytes test_text, ''/tmp/b.bin'' \<mapsto> [1, 2, 3],
            ''/tmp/secret'' \<mapsto> test_envelope],
      rng = (\<lambda>i. of_nat i),
      uuids = (\<lambda>n. if n = 0 then ''9b1deb4d-3b7d-4bad-9bdd-2b0d7b3dcb6d''
                    else ''1b9d6bcd-bbfd-4b2d-9b5d-ab8dfbbd4bed''),
      now = 0\<rparr>"

definition test_storage :: "unit storage" where
  "test_storage =
     \<lparr>storageType = ''ipfs'', tempDir = ''/tmp/aetherdrive-storage-0'', files = [],
      ipfs = None, usingMock = True\<rparr>"

text \<open>Calls on the test storage: an upload under another id, downloads, a deletion.\<close>

definition test_calls :: "storage_call list" where
  "test_calls =
     [Put ''/tmp/b.bin'' (no_options\<lparr>fileId := Some ''other''\<rparr>),
      Get ''other'' ''/tmp/o2'' no_options,
      Get ''other'' ''/tmp'' no_options,
      Remove ''other'' no_options]"

definition test_class :: "unit storage storage_class" where
  "test_class = Storage_class test_crypto test_fs test_ipfs"

text \<open>A manager over the test storage with one record, stored under a backend id.\<close>

definition test_manager :: "unit storage fileManager" where
  "test_manager =
     \<lparr>storage = test_storage,
      fileRegistry =
        [(''report'',
          \<lparr>fi_id = ''report'', fi_storageId = ''QmHash'', fi_name = ''report.pdf'',
           fi_size = 3, fi_contentType = ''application/pdf'', fi_createdAt = 0,
           fi_encrypted = False\<rparr>)]\<rparr>"

text \<open>A storage object whose backend is down: every method throws.\<close>

definition down_class :: "unit storage_class" where
  "down_class =
     \<lparr>st_uploadFile = (\<lambda>p opts sw. (Inl (Ipfs_error ''unreachable''), sw)),
      st_downloadFile = (\<lambda>i d opts sw. (Inl (Ipfs_error ''unreachable''), sw)),
      st_deleteFile = (\<lambda>i opts sw. (Inl (Ipfs_error ''unreachable''), sw))\<rparr>"

section \<open>The cipher: padding and chaining\<close>

lemma length_xor_bytes: "length (xor_bytes a b) = min (length a) (length b)"
  by (simp add: xor_bytes_def)

lemma xor_bytes_cancel: "length a = length b \<Longrightarrow> xor_bytes (xor_bytes a b) b = a"
  unfolding xor_bytes_def
  by (induction a b rule: list_induct2) (simp_all add: xor.assoc)

lemma length_pkcs7_pad: "length (pkcs7_pad p) = 16 * (length p div 16 + 1)"
  unfolding pkcs7_pad_def Let_def by simp presburger

lemma pkcs7_pad_blocks: "length (pkcs7_pad p) mod 16 = 0"
  by (simp add: length_pkcs7_pad)

lemma pkcs7_unpad_pad: "pkcs7_unpad (pkcs7_pad p) = Inr p"
proof -
  define n where "n = 16 - length p mod 16"
  have n: "0 < n" "n \<le> 16" by (simp_all add: n_def)
  have u: "unat (of_nat n :: byte) = n" using n by (simp add: unat_of_nat)
  have q: "pkcs7_pad p = p @ replicate n (of_nat n)" by (simp add: pkcs7_pad_def n_def)
  have l: "last (p @ replicate n (of_nat n :: byte)) = of_nat n" using n by simp
  show ?thesis
    unfolding q pkcs7_unpad_def l Let_def u using n by simp
qed

lemma length_multiple_16: "p \<noteq> [] \<Longrightarrow> length p mod 16 = 0 \<Longrightarrow> 16 \<le> length p"
  by (cases "length p < 16") auto

lemma length_drop_16: "16 \<le> length p \<Longrightarrow> length p mod 16 = 0 \<Longrightarrow> length (drop 16 p) mod 16 = 0"
  by (simp add: mod_eq_0_iff_dvd)

lemma cbc_encrypt_length:
  "(\<forall>b. length b = 16 \<longrightarrow> length (E b) = 16) \<Longrightarrow> length prev = 16 \<Longrightarrow>
   length p mod 16 = 0 \<Longrightarrow> length (cbc_encrypt E prev p) = length p"
proof (induction E prev p rule: cbc_encrypt.induct)
  case (1 E prev p)
  show ?case
  proof (cases "p = []")
    case True
    then show ?thesis by (simp add: cbc_encrypt.simps)
  next
    case False
    with "1.prems" have lp: "16 \<le> length p" by (simp add: length_multiple_16)
    define c where "c = E (xor_bytes (take 16 p) prev)"
    have lc: "length c = 16"
      unfolding c_def using lp "1.prems" by (simp add: length_xor_bytes)
    have ld: "length (drop 16 p) mod 16 = 0"
      using lp "1.prems"(3) by (rule length_drop_16)
    have "length (cbc_encrypt E c (drop 16 p)) = length (drop 16 p)"
      using "1.IH" [OF False c_def "1.prems"(1) lc ld] .
    then show ?thesis
      using False lp lc by (subst cbc_encrypt.simps) (simp add: Let_def c_def [symmetric])
  qed
qed

lemma cbc_roundtrip:
  "(\<forall>b. length b = 16 \<longrightarrow> length (E b) = 16 \<and> D (E b) = b) \<Longrightarrow> length prev = 16 \<Longrightarrow>
   length p mod 16 = 0 \<Longrightarrow> cbc_decrypt D prev (cbc_encrypt E prev p) = p"
proof (induction E prev p rule: cbc_encrypt.induct)
  case (1 E prev p)
  show ?case
  proof (cases "p = []")
    case True
    then show ?thesis by (simp add: cbc_encrypt.simps cbc_decrypt.simps)
  next
    case False
    with "1.prems" have lp: "16 \<le> length p" by (simp add: length_multiple_16)
    define x where "x = xor_bytes (take 16 p) prev"
    define c where "c = E x"
    have lx: "length x = 16" using lp "1.prems" by (simp add: x_def length_xor_bytes)
    have lc: "length c = 16" and dc: "D c = x" using "1.prems"(1) lx by (simp_all add: c_def)
    have ld: "length (drop 16 p) mod 16 = 0"
      using lp "1.prems"(3) by (rule length_drop_16)
    have IH: "cbc_decrypt D c (cbc_encrypt E c (drop 16 p)) = drop 16 p"
      using "1.IH" [OF False c_def [unfolded x_def] "1.prems"(1) lc ld] .
    have e: "cbc_encrypt E prev p = c @ cbc_encrypt E c (drop 16 p)"
      using False by (subst cbc_encrypt.simps) (simp add: Let_def c_def x_def)
    have xc: "xor_bytes x prev = take 16 p"
      unfolding x_def using lp "1.prems"(2) by (intro xor_bytes_cancel) simp
    have cn: "c \<noteq> []" using lc by auto
    show ?thesis
      unfolding e using lc dc IH xc cn
      by (subst cbc_decrypt.simps) (simp add: Let_def)
  qed
qed

section \<open>Encryption and decryption of files\<close>

lemma test_crypto_ok: "crypto_ok test_crypto"
  by (simp add: crypto_ok_def test_crypto_def comp_def rev_map)

lemma randomBytes_length: "length (fst (randomBytes n w)) = n"
  by (simp add: randomBytes_def)

lemma randomBytes_fs: "fs (snd (randomBytes n w)) = fs w"
  by (simp add: randomBytes_def)

lemma cipher_update_final_length:
  assumes "crypto_ok c" "length iv = 16"
  shows "length (cipher_update_final c (k, iv) p) = 16 * (length p div 16 + 1)"
proof -
  have "\<forall>b. length b = 16 \<longrightarrow> length (aes_encrypt_block c k b) = 16"
    using assms(1) by (simp add: crypto_ok_def)
  then have "length (cbc_encrypt (aes_encrypt_block c k) iv (pkcs7_pad p)) = length (pkcs7_pad p)"
    using assms(2) pkcs7_pad_blocks by (rule cbc_encrypt_length)
  then show ?thesis by (simp add: cipher_update_final_def length_pkcs7_pad)
qed

lemma decipher_cipher:
  assumes "crypto_ok c" "length iv = 16"
  shows "decipher_update_final c (k, iv) (cipher_update_final c (k, iv) p) = Inr p"
proof -
  let ?q = "cipher_update_final c (k, iv) p"
  have E: "\<forall>b. length b = 16 \<longrightarrow> length (aes_encrypt_block c k b) = 16 \<and>
             aes_decrypt_block c k (aes_encrypt_block c k b) = b"
    using assms(1) by (simp add: crypto_ok_def)
  have l: "length ?q = 16 * (length p div 16 + 1)"
    using assms by (rule cipher_update_final_length)
  then have ne: "?q \<noteq> []" and m: "length ?q mod 16 = 0" by auto
  have "cbc_decrypt (aes_decrypt_block c k) iv ?q = pkcs7_pad p"
    unfolding cipher_update_final_def fst_conv snd_conv
    using E assms(2) pkcs7_pad_blocks by (rule cbc_roundtrip)
  then show ?thesis
    using ne m by (simp add: decipher_update_final_def pkcs7_unpad_pad)
qed

text \<open>
  \<open>generateKey\<close> with a salt is a function of the password and the salt alone: it
  reads nothing of the machine and leaves it as it is, and it calls the key derivation
  with 100000 iterations, 32 bytes and 'sha256'. Without a salt it draws 16 random bytes.
\<close>

lemma generateKey_salt:
  "generateKey c password (Some s) w =
     (\<lparr>key = pbkdf2Sync c password s 100000 32 ''sha256'', salt = s\<rparr>, w)"
  by (simp add: generateKey_def)

lemma generateKey_key_length:
  "crypto_ok c \<Longrightarrow> length (key (fst (generateKey c password salt0 w))) = 32"
  by (cases salt0) (simp_all add: generateKey_def crypto_ok_def randomBytes_def Let_def)

lemma generateKey_fresh_salt:
  "salt (fst (generateKey c password None w)) = map (rng w) [0..<16] \<and>
   length (salt (fst (generateKey c password None w))) = 16"
  by (simp add: generateKey_def randomBytes_def Let_def)

text \<open>What a successful \<open>encryptFile\<close> returns and writes.\<close>

lemma encryptFile_success:
  assumes ok: "crypto_ok c" and fl: "fs w filePath = Some p"
  shows "\<exists>slt iv w2.
           length slt = 16 \<and> length iv = 16 \<and> fs w2 = fs w \<and>
           encryptFile c filePath password opts w =
             (Inr (or_string (outputPath opts) (filePath @ ''.enc'')),
              fs_writeFile (or_string (outputPath opts) (filePath @ ''.enc''))
                (slt @ iv @
                 cipher_update_final c (pbkdf2Sync c password slt 100000 32 ''sha256'', iv) p)
                w2)"
proof -
  obtain iv w1 where r1: "randomBytes 16 w = (iv, w1)" by (cases "randomBytes 16 w")
  obtain slt w2 where r2: "randomBytes 16 w1 = (slt, w2)" by (cases "randomBytes 16 w1")
  have liv: "length iv = 16" using randomBytes_length [of 16 w] r1 by simp
  have lslt: "length slt = 16" using randomBytes_length [of 16 w1] r2 by simp
  have f1: "fs w1 = fs w" using randomBytes_fs [of 16 w] r1 by simp
  have f2: "fs w2 = fs w" using randomBytes_fs [of 16 w1] r2 f1 by simp
  have lk: "length (pbkdf2Sync c password slt 100000 32 ''sha256'') = 32"
    using ok by (simp add: crypto_ok_def)
  have "encryptFile c filePath password opts w =
          (Inr (or_string (outputPath opts) (filePath @ ''.enc'')),
           fs_writeFile (or_string (outputPath opts) (filePath @ ''.enc''))
             (slt @ iv @
              cipher_update_final c (pbkdf2Sync c password slt 100000 32 ''sha256'', iv) p)
             w2)"
    using fl f2 liv lk
    by (simp add: encryptFile_def encryptFile_try_def fs_access_def fs_readFile_def r1 r2
        generateKey_def createCipheriv_def Let_def)
  then show ?thesis using liv lslt f2 by blast
qed

lemma decryptFile_envelope:
  assumes ok: "crypto_ok c" and ls: "length slt = 16" and li: "length iv = 16"
    and fl: "fs w encPath = Some (slt @ iv @
                 cipher_update_final c (pbkdf2Sync c password slt 100000 32 ''sha256'', iv) p)"
  shows "decryptFile c encPath password opts w =
           (Inr (or_string (outputPath opts) (replace_enc encPath)),
            fs_writeFile (or_string (outputPath opts) (replace_enc encPath)) p w)"
proof -
  have lk: "length (pbkdf2Sync c password slt 100000 32 ''sha256'') = 32"
    using ok by (simp add: crypto_ok_def)
  have d: "decipher_update_final c (pbkdf2Sync c password slt 100000 32 ''sha256'', iv)
             (cipher_update_final c (pbkdf2Sync c password slt 100000 32 ''sha256'', iv) p) = Inr p"
    using ok li by (rule decipher_cipher)
  show ?thesis
    using fl ls li lk d
    by (simp add: decryptFile_def decryptFile_try_def fs_access_def fs_readFile_def
        generateKey_def createDecipheriv_def createCipheriv_def Let_def)
qed


lemma round_up: "n mod 16 \<noteq> 0 \<Longrightarrow> (n + 15) div 16 = n div 16 + (1::nat)"
proof -
  assume a: "n mod 16 \<noteq> 0"
  define q r where "q = n div 16" and "r = n mod 16"
  have n: "n = 16 * q + r" and r: "0 < r" "r < 16" using a by (simp_all add: q_def r_def)
  have "(n + 15) div 16 = q + 1"
    by (rule div_nat_eqI) (use n r in simp_all)
  then show ?thesis by (simp add: q_def)
qed

lemma ciphertextLength_eq: "ciphertextLength n = 16 * (n div 16 + 1)"
  by (simp add: ciphertextLength_def round_up)

lemma ciphertextLength_least:
  "16 dvd ciphertextLength n \<and> n < ciphertextLength n \<and>
   (\<forall>m. 16 dvd m \<and> n < m \<longrightarrow> ciphertextLength n \<le> m)"
proof -
  have a: "n < 16 * (n div 16 + 1)"
    using div_mult_mod_eq [of n 16] mod_less_divisor [of 16 n] by simp
  have b: "16 * (n div 16 + 1) \<le> m" if "16 dvd m" "n < m" for m
  proof -
    from that(1) obtain k where k: "m = 16 * k" by (auto simp: dvd_def)
    from that(2) k have "n div 16 < k" by (simp add: div_less_iff_less_mult mult.commute)
    then show ?thesis using k by simp
  qed
  show ?thesis unfolding ciphertextLength_eq using a b by simp
qed



lemma decryptFile_cipher_rejects:
  assumes "fs w filePath = Some env" and "32 \<le> length env"
    and "length (pbkdf2Sync c password (take 16 env) 100000 32 ''sha256'') = 32"
    and "decipher_update_final c
           (pbkdf2Sync c password (take 16 env) 100000 32 ''sha256'', take 16 (drop 16 env))
           (drop 32 env) = Inl ce"
  shows "decryptFile c filePath password opts w =
           (Inl (Failed_to_decrypt (Decryption_failed ce)), w)"
  using assms
  by (simp add: decryptFile_def decryptFile_try_def fs_access_def fs_readFile_def
      generateKey_def createDecipheriv_def createCipheriv_def Let_def)



lemma replace_enc_differs: "ends_with p ''.enc'' \<Longrightarrow> take (length p - 4) p @ ''.dec'' \<noteq> p"
proof
  assume e: "ends_with p ''.enc''" and eq: "take (length p - 4) p @ ''.dec'' = p"
  have l4: "length ''.enc'' = 4" by simp
  from e have "drop (length p - 4) p = ''.enc''" and "4 \<le> length p"
    unfolding ends_with_def l4 by simp_all
  moreover from eq have "drop (length p - 4) (take (length p - 4) p @ ''.dec'') = drop (length p - 4) p"
    by simp
  ultimately show False by simp
qed

text \<open>
  C10. When \<open>options.outputPath\<close> is absent and \<open>decryptFile\<close> succeeds, the path
  it returns is the input path itself unless the input path ends in ".enc": then it
  is the input path with ".enc" replaced by ".dec", a different path. In both cases
  the recovered plaintext is written to the returned path, so for a path that does not
  end in ".enc" it overwrites the encrypted input.
\<close>

theorem decrypt_default_output:
  assumes absent: "outputPath opts = None"
    and dec: "decryptFile c filePath password opts w = (Inr out, w1)"
  shows "(if ends_with filePath ''.enc''
          then out = take (length filePath - 4) filePath @ ''.dec'' \<and> out \<noteq> filePath
          else out = filePath) \<and>
         (\<exists>env plain.
            fs w filePath = Some env \<and>
            decipher_update_final c
              (pbkdf2Sync c password (take 16 env) 100000 32 ''sha256'', take 16 (drop 16 env))
              (drop 32 env) = Inr plain \<and>
            w1 = fs_writeFile out plain w)"
proof -
  from dec obtain env where fl: "fs w filePath = Some env"
    by (cases "fs w filePath")
       (auto simp: decryptFile_def decryptFile_try_def fs_access_def split: if_splits)
  let ?k = "pbkdf2Sync c password (take 16 env) 100000 32 ''sha256''"
  let ?iv = "take 16 (drop 16 env)"
  from dec fl have cr: "createCipheriv ?k ?iv = Inr (?k, ?iv)"
    by (auto simp: decryptFile_def decryptFile_try_def fs_access_def fs_readFile_def
        generateKey_def createDecipheriv_def createCipheriv_def Let_def
        split: if_splits sum.splits)
  from dec fl cr obtain plain where
    pl: "decipher_update_final c (?k, ?iv) (drop 32 env) = Inr plain"
    by (cases "decipher_update_final c (?k, ?iv) (drop 32 env)")
       (auto simp: decryptFile_def decryptFile_try_def fs_access_def fs_readFile_def
        generateKey_def createDecipheriv_def Let_def)
  from dec fl cr pl absent
  have r: "out = replace_enc filePath" "w1 = fs_writeFile out plain w"
    by (auto simp: decryptFile_def decryptFile_try_def fs_access_def fs_readFile_def
        generateKey_def createDecipheriv_def Let_def or_string_def)
  have "if ends_with filePath ''.enc''
          then out = take (length filePath - 4) filePath @ ''.dec'' \<and> out \<noteq> filePath
          else out = filePath"
    using r(1) replace_enc_differs [of filePath] by (simp add: replace_enc_def)
  then show ?thesis using fl pl r(2) by blast
qed

lemma replicate_numeral: "replicate (numeral k) x = x # replicate (pred_numeral k) x"
  by (simp add: numeral_eq_Suc)

lemma test_unpad: "pkcs7_unpad [1, 2, 3, 13, 13, 13, 13, 13, 13, 13, 13, 13, 13, 13, 13, 13] = Inr [1, 2, 3]"
  by (simp add: pkcs7_unpad_def replicate_numeral)

lemma test_key: "pbkdf2Sync test_crypto ''pw1'' (take 16 test_envelope) 100000 32 ''sha256'' = replicate 32 19"
  by (simp add: test_crypto_def test_envelope_def key_byte_def)

lemma key_byte_replicate: "key_byte (replicate (numeral k) x) = x"
  by (simp add: key_byte_def replicate_numeral)

lemma test_cbc: "cbc_decrypt (aes_decrypt_block test_crypto (replicate 32 19))
     [0, 1, 2, 3, 4, 5, 6, 7, 8, 9, 10, 11, 12, 13, 14, 15]
     [21, 22, 19, 20, 25, 26, 23, 24, 29, 30, 27, 28, 33, 20, 22, 20]
   = [1, 2, 3, 13, 13, 13, 13, 13, 13, 13, 13, 13, 13, 13, 13, 13]"
  by (simp add: cbc_decrypt.simps test_crypto_def key_byte_replicate xor_bytes_def)


lemma test_decrypt:
  "decryptFile test_crypto ''/tmp/secret'' ''pw1'' no_options test_world =
     (Inr ''/tmp/secret'', fs_writeFile ''/tmp/secret'' [1, 2, 3] test_world)"
proof -
  have f: "fs test_world ''/tmp/secret'' = Some test_envelope" by (simp add: test_world_def)
  have iv: "take 16 (drop 16 test_envelope) = [0, 1, 2, 3, 4, 5, 6, 7, 8, 9, 10, 11, 12, 13, 14, 15]"
    by (simp add: test_envelope_def)
  have ct: "drop 32 test_envelope =
              [21, 22, 19, 20, 25, 26, 23, 24, 29, 30, 27, 28, 33, 20, 22, 20]"
    by (simp add: test_envelope_def)
  have d: "decipher_update_final test_crypto
             (replicate 32 19, [0, 1, 2, 3, 4, 5, 6, 7, 8, 9, 10, 11, 12, 13, 14, 15])
             [21, 22, 19, 20, 25, 26, 23, 24, 29, 30, 27, 28, 33, 20, 22, 20] = Inr [1, 2, 3]"
    by (simp add: decipher_update_final_def test_cbc test_unpad)
  have p: "or_string (outputPath no_options) (replace_enc ''/tmp/secret'') = ''/tmp/secret''"
    by (simp add: no_options_def or_string_def replace_enc_def ends_with_def)
  show ?thesis
    by (simp add: decryptFile_def decryptFile_try_def fs_access_def fs_readFile_def f
        generateKey_def test_key iv ct createDecipheriv_def createCipheriv_def d p Let_def)
qed

theorem decrypt_default_output_witness:
  "outputPath no_options = None \<and> \<not> ends_with ''/tmp/secret'' ''.enc'' \<and>
   decryptFile test_crypto ''/tmp/secret'' ''pw1'' no_options test_world =
     (Inr ''/tmp/secret'', fs_writeFile ''/tmp/secret'' [1, 2, 3] test_world) \<and>
   fs (fs_writeFile ''/tmp/secret'' [1, 2, 3] test_world) ''/tmp/secret'' = Some [1, 2, 3]"
proof -
  have a: "outputPath no_options = None" by (simp add: no_options_def)
  have n: "\<not> ends_with ''/tmp/secret'' ''.enc''" by (simp add: ends_with_def)
  from decrypt_default_output [OF a test_decrypt] n
  show ?thesis using a test_decrypt by (simp add: fs_writeFile_def)
qed


section \<open>The file manager and the storage\<close>

lemma upload_inserts_only_after_backend_success:
  assumes "FileManager_uploadFile S filePath opts (fm, w) = (r, fm', w')"
    and "fileRegistry fm' \<noteq> fileRegistry fm"
  shows "\<exists>sid s1 w1. st_uploadFile S filePath opts (storage fm, w) = (Inr sid, s1, w1)"
  using assms
  by (auto simp: FileManager_uploadFile_def FileManager_uploadFile_try_def Let_def
      split: sum.splits prod.splits option.splits if_splits)

lemma upload_failure_keeps_registry:
  assumes "FileManager_uploadFile S filePath opts (fm, w) = (Inl e, fm', w')"
  shows "fileRegistry fm' = fileRegistry fm"
  using assms
  by (auto simp: FileManager_uploadFile_def FileManager_uploadFile_try_def Let_def
      split: sum.splits prod.splits option.splits if_splits)

text \<open>
  C6. If the file exists and the storage object's \<open>uploadFile\<close> throws \<open>e\<close>, then
  \<open>FileManager.uploadFile\<close> throws (the error \<open>e\<close> under the prefix "Failed to upload
  file"), and the registry is what it was before the call, so \<open>listFiles\<close> returns the
  same records: \<open>fileRegistry.set\<close> comes after the awaited storage call (a registry
  that changed implies a storage call that returned, lemma
  \<open>upload_inserts_only_after_backend_success\<close>).
\<close>

theorem upload_backend_failure:
  assumes fl: "fs w filePath = Some content"
    and backend: "st_uploadFile S filePath opts (storage fm, w) = (Inl e, s1, w1)"
  shows "FileManager_uploadFile S filePath opts (fm, w) =
           (Inl (Failed_to_upload e), fm\<lparr>storage := s1\<rparr>, w1) \<and>
         fileRegistry (fm\<lparr>storage := s1\<rparr>) = fileRegistry fm \<and>
         FileManager_listFiles lopts (fm\<lparr>storage := s1\<rparr>, w1) =
           (Inr (Map_values (fileRegistry fm)), fm\<lparr>storage := s1\<rparr>, w1)"
  using fl backend
  by (simp add: FileManager_uploadFile_def FileManager_uploadFile_try_def Let_def
      fs_access_def FileManager_listFiles_def)

theorem upload_backend_failure_witness:
  "fs test_world ''/tmp/a.txt'' = Some (string_bytes test_text) \<and>
   st_uploadFile down_class ''/tmp/a.txt'' no_options (storage (FileManager_new ()), test_world) =
     (Inl (Ipfs_error ''unreachable''), (), test_world) \<and>
   FileManager_uploadFile down_class ''/tmp/a.txt'' no_options (FileManager_new (), test_world) =
     (Inl (Failed_to_upload (Ipfs_error ''unreachable'')), FileManager_new (), test_world) \<and>
   fileRegistry (FileManager_new ()) = []"
proof -
  have f: "fs test_world ''/tmp/a.txt'' = Some (string_bytes test_text)"
    by (simp add: test_world_def)
  have b: "st_uploadFile down_class ''/tmp/a.txt'' no_options
             (storage (FileManager_new ()), test_world) =
           (Inl (Ipfs_error ''unreachable''), (), test_world)"
    by (simp add: down_class_def)
  from upload_backend_failure [OF f b, of no_options]
  show ?thesis using f b by (simp add: FileManager_new_def)
qed

text \<open>
  C7. \<open>FileManager.downloadFile\<close> never rejects an id for being unknown: for an id
  that is not in the registry it is the storage object's \<open>downloadFile\<close> called with
  the id itself, and for a registered id it is that call with the record's
  \<open>storageId\<close>; in both cases its result is the storage call's result, an error of the
  storage call coming back under the prefix "Failed to download file".
\<close>

theorem download_resolution:
  "(Map_get (fileRegistry fm) fid = None \<longrightarrow>
      FileManager_downloadFile S fid destination opts (fm, w) =
        (case st_downloadFile S fid destination opts (storage fm, w) of
           (Inl e, s1, w1) \<Rightarrow> (Inl (Failed_to_download e), fm\<lparr>storage := s1\<rparr>, w1)
         | (Inr p, s1, w1) \<Rightarrow> (Inr p, fm\<lparr>storage := s1\<rparr>, w1))) \<and>
   (\<forall>fileInfo. Map_get (fileRegistry fm) fid = Some fileInfo \<longrightarrow>
      FileManager_downloadFile S fid destination opts (fm, w) =
        (case st_downloadFile S (fi_storageId fileInfo) destination opts (storage fm, w) of
           (Inl e, s1, w1) \<Rightarrow> (Inl (Failed_to_download e), fm\<lparr>storage := s1\<rparr>, w1)
         | (Inr p, s1, w1) \<Rightarrow> (Inr p, fm\<lparr>storage := s1\<rparr>, w1)))"
  by (simp add: FileManager_downloadFile_def Let_def)

lemma test_download:
  "st_downloadFile test_class i ''/tmp/out'' no_options (test_storage, test_world) =
     (Inr ''/tmp/out'', test_storage,
      fs_writeFile ''/tmp/out'' (string_bytes (''Mock content for file ID: '' @ i)) test_world)"
  by (simp add: test_class_def Storage_class_def Storage_downloadFile_def
      Storage_downloadFile_try_def mockDownloadFile_def test_storage_def Map_get_def Let_def
      fs_ensureDir_dirname_def fs_writeFile_checked_def test_fs_def)

theorem download_resolution_witness:
  "Map_get (fileRegistry test_manager) ''never-issued'' = None \<and>
   FileManager_downloadFile test_class ''never-issued'' ''/tmp/out'' no_options
       (test_manager, test_world) =
     (Inr ''/tmp/out'', test_manager,
      fs_writeFile ''/tmp/out'' (string_bytes ''Mock content for file ID: never-issued'')
        test_world) \<and>
   map_option fi_storageId (Map_get (fileRegistry test_manager) ''report'') = Some ''QmHash'' \<and>
   FileManager_downloadFile test_class ''report'' ''/tmp/out'' no_options
       (test_manager, test_world) =
     (Inr ''/tmp/out'', test_manager,
      fs_writeFile ''/tmp/out'' (string_bytes ''Mock content for file ID: QmHash'') test_world)"
proof -
  have n: "Map_get (fileRegistry test_manager) ''never-issued'' = None"
    by (simp add: test_manager_def Map_get_def)
  have r: "Map_get (fileRegistry test_manager) ''report'' =
             Some \<lparr>fi_id = ''report'', fi_storageId = ''QmHash'', fi_name = ''report.pdf'',
                   fi_size = 3, fi_contentType = ''application/pdf'', fi_createdAt = 0,
                   fi_encrypted = False\<rparr>"
    by (simp add: test_manager_def Map_get_def)
  have s: "storage test_manager = test_storage" "test_manager\<lparr>storage := test_storage\<rparr> = test_manager"
    by (simp_all add: test_manager_def)
  from download_resolution [of test_manager "''never-issued''" test_class "''/tmp/out''"
      no_options test_world] n
  have a: "FileManager_downloadFile test_class ''never-issued'' ''/tmp/out'' no_options
       (test_manager, test_world) =
     (Inr ''/tmp/out'', test_manager,
      fs_writeFile ''/tmp/out'' (string_bytes ''Mock content for file ID: never-issued'')
        test_world)"
    by (simp add: s test_download)
  from download_resolution [of test_manager "''report''" test_class "''/tmp/out''"
      no_options test_world] r
  have b: "FileManager_downloadFile test_class ''report'' ''/tmp/out'' no_options
       (test_manager, test_world) =
     (Inr ''/tmp/out'', test_manager,
      fs_writeFile ''/tmp/out'' (string_bytes ''Mock content for file ID: QmHash'') test_world)"
    by (simp add: s test_download)
  show ?thesis using n r a b by simp
qed

subsection \<open>The registry as a Map\<close>

lemma Map_set_keys: "fst ` set (Map_set k v m) = insert k (fst ` set m)"
proof (induction m)
  case Nil
  show ?case by simp
next
  case (Cons e m)
  show ?case
  proof (cases "fst e = k")
    case True
    then show ?thesis by (cases e) simp
  next
    case False
    then show ?thesis using Cons.IH by (cases e) (simp add: insert_commute)
  qed
qed

lemma Map_set_mem: "(k, v) \<in> set (Map_set k v m)"
  by (induction m) auto

lemma Map_set_other: "e \<in> set m \<Longrightarrow> fst e \<noteq> k \<Longrightarrow> e \<in> set (Map_set k v m)"
  by (induction m) auto

lemma Map_set_subset: "set (Map_set k v m) \<subseteq> insert (k, v) (set m)"
  by (induction m) (auto split: if_splits)

lemma Map_set_distinct: "distinct (map fst m) \<Longrightarrow> distinct (map fst (Map_set k v m))"
proof (induction m)
  case Nil
  then show ?case by simp
next
  case (Cons e m)
  then show ?case using Map_set_keys [of k v m] by (cases e) auto
qed

lemma Map_delete_keys: "fst ` set (Map_delete k m) = fst ` set m - {k}"
  by (auto simp: Map_delete_def)

lemma Map_delete_absent: "k \<notin> fst ` set m \<Longrightarrow> Map_delete k m = m"
  by (induction m) (auto simp: Map_delete_def)

lemma Map_get_None: "Map_get m k = None \<longleftrightarrow> k \<notin> fst ` set m"
  by (simp add: Map_get_def map_of_eq_None_iff)

lemma registry_ok_new: "registry_ok (fileRegistry (FileManager_new s))"
  by (simp add: registry_ok_def FileManager_new_def)

lemma registry_ok_set:
  "registry_ok m \<Longrightarrow> fi_id v = k \<Longrightarrow> registry_ok (Map_set k v m)"
  unfolding registry_ok_def list_all_iff
  using Map_set_subset [of k v m] by (auto simp: Map_set_distinct)

lemma registry_ok_delete: "registry_ok m \<Longrightarrow> registry_ok (Map_delete k m)"
  by (auto simp: registry_ok_def Map_delete_def list_all_iff distinct_map_filter)

lemma registry_ok_ids: "registry_ok m \<Longrightarrow> set (map fi_id (Map_values m)) = fst ` set m"
  by (force simp: registry_ok_def list_all_iff Map_values_def)

lemma listed_ids_eq: "listed_ids mw = map fi_id (Map_values (fileRegistry (fst mw)))"
  by (simp add: listed_ids_def FileManager_listFiles_def)

lemma stored_record: "fi_id v = x \<Longrightarrow> \<exists>u. fi_id u = x \<and> Map_set x v m = Map_set x u m"
  by blast

lemma upload_result:
  "(\<exists>e. fst (FileManager_uploadFile S p opts mw) = Inl e \<and>
        fileRegistry (fst (snd (FileManager_uploadFile S p opts mw))) = fileRegistry (fst mw)) \<or>
   (\<exists>x v. fst (FileManager_uploadFile S p opts mw) = Inr x \<and> fi_id v = x \<and>
        fileRegistry (fst (snd (FileManager_uploadFile S p opts mw))) =
          Map_set x v (fileRegistry (fst mw)))"
  by (auto simp: FileManager_uploadFile_def FileManager_uploadFile_try_def Let_def
      split: sum.splits prod.splits option.splits if_splits intro!: stored_record)

lemma upload_cases:
  assumes "FileManager_uploadFile S p opts mw = (r, mw')"
  obtains (failed) e where "r = Inl e" "fileRegistry (fst mw') = fileRegistry (fst mw)"
  | (stored) x v where "r = Inr x" "fi_id v = x"
      "fileRegistry (fst mw') = Map_set x v (fileRegistry (fst mw))"
  using upload_result [of S p opts mw] unfolding assms fst_conv snd_conv by blast

lemma download_registry:
  "fileRegistry (fst (snd (FileManager_downloadFile S i d opts mw))) = fileRegistry (fst mw)"
  by (auto simp: FileManager_downloadFile_def Let_def split: sum.splits prod.splits option.splits)

lemma delete_result:
  "case fst (FileManager_deleteFile S i opts mw) of
     Inl e \<Rightarrow> fileRegistry (fst (snd (FileManager_deleteFile S i opts mw))) =
               fileRegistry (fst mw)
   | Inr b \<Rightarrow> fileRegistry (fst (snd (FileManager_deleteFile S i opts mw))) =
               Map_delete i (fileRegistry (fst mw))"
  by (auto simp: FileManager_deleteFile_def Let_def Map_get_None Map_delete_absent
      split: sum.splits prod.splits option.splits)

lemma delete_cases:
  assumes "FileManager_deleteFile S i opts mw = (r, mw')"
  obtains (failed) e where "r = Inl e" "fileRegistry (fst mw') = fileRegistry (fst mw)"
  | (deleted) b where "r = Inr b"
      "fileRegistry (fst mw') = Map_delete i (fileRegistry (fst mw))"
  using delete_result [of S i opts mw] unfolding assms fst_conv snd_conv
  by (cases r) auto

lemma call_preserves:
  assumes c: "FileManager_call S c mw = (out, mw')"
    and ok: "registry_ok (fileRegistry (fst mw))"
    and absent: "fid \<notin> fst ` set (fileRegistry (fst mw))"
    and noup: "out \<noteq> Uploaded (Inr fid)"
  shows "registry_ok (fileRegistry (fst mw')) \<and> fid \<notin> fst ` set (fileRegistry (fst mw'))"
proof (cases c)
  case (Upload p opts)
  obtain r where r: "FileManager_uploadFile S p opts mw = (r, mw')" and out: "out = Uploaded r"
    using c Upload by (cases "FileManager_uploadFile S p opts mw") (auto simp: Let_def)
  from r show ?thesis
  proof (cases rule: upload_cases)
    case (failed e)
    then show ?thesis using ok absent by simp
  next
    case (stored x v)
    with noup out have "x \<noteq> fid" by auto
    with stored ok absent show ?thesis by (simp add: registry_ok_set Map_set_keys)
  qed
next
  case (Download i d opts)
  with c have "mw' = snd (FileManager_downloadFile S i d opts mw)" by (auto simp: Let_def)
  then show ?thesis using ok absent by (simp add: download_registry)
next
  case (Delete i opts)
  obtain r where r: "FileManager_deleteFile S i opts mw = (r, mw')"
    using c Delete by (cases "FileManager_deleteFile S i opts mw") (auto simp: Let_def)
  from r show ?thesis
  proof (cases rule: delete_cases)
    case (failed e)
    then show ?thesis using ok absent by simp
  next
    case (deleted b)
    then show ?thesis using ok absent by (simp add: registry_ok_delete Map_delete_keys)
  qed
next
  case (List opts)
  with c have "mw' = mw" by (auto simp: Let_def FileManager_listFiles_def)
  then show ?thesis using ok absent by simp
qed

lemma call_listed:
  assumes c: "FileManager_call S c mw = (Listed (Inr recs), mw')"
    and ok: "registry_ok (fileRegistry (fst mw))"
    and absent: "fid \<notin> fst ` set (fileRegistry (fst mw))"
  shows "fid \<notin> fi_id ` set recs"
proof -
  from c have "recs = Map_values (fileRegistry (fst mw))"
    by (cases c) (auto simp: Let_def FileManager_listFiles_def)
  then show ?thesis using registry_ok_ids [OF ok] absent by simp
qed

lemma calls_preserve:
  "FileManager_calls S cs mw = (outs, mw') \<Longrightarrow> registry_ok (fileRegistry (fst mw)) \<Longrightarrow>
   fid \<notin> fst ` set (fileRegistry (fst mw)) \<Longrightarrow> Uploaded (Inr fid) \<notin> set outs \<Longrightarrow>
   registry_ok (fileRegistry (fst mw')) \<and> fid \<notin> fst ` set (fileRegistry (fst mw')) \<and>
   (\<forall>recs. Listed (Inr recs) \<in> set outs \<longrightarrow> fid \<notin> fi_id ` set recs)"
proof (induction cs arbitrary: mw outs mw')
  case Nil
  then show ?case by simp
next
  case (Cons c cs)
  obtain out mw1 where c: "FileManager_call S c mw = (out, mw1)"
    by (cases "FileManager_call S c mw")
  obtain outs1 mw2 where cs: "FileManager_calls S cs mw1 = (outs1, mw2)"
    by (cases "FileManager_calls S cs mw1")
  from Cons.prems(1) c cs have o: "outs = out # outs1" and m: "mw2 = mw'"
    by (simp_all add: Let_def)
  from Cons.prems(4) o have n1: "out \<noteq> Uploaded (Inr fid)" and n2: "Uploaded (Inr fid) \<notin> set outs1"
    by auto
  from call_preserves [OF c Cons.prems(2) Cons.prems(3) n1]
  have ok1: "registry_ok (fileRegistry (fst mw1))"
    and a1: "fid \<notin> fst ` set (fileRegistry (fst mw1))" by simp_all
  from Cons.IH [OF cs [unfolded m] ok1 a1 n2]
  have rest: "registry_ok (fileRegistry (fst mw'))" "fid \<notin> fst ` set (fileRegistry (fst mw'))"
    "\<forall>recs. Listed (Inr recs) \<in> set outs1 \<longrightarrow> fid \<notin> fi_id ` set recs"
    by simp_all
  have "fid \<notin> fi_id ` set recs" if "out = Listed (Inr recs)" for recs
    using call_listed [OF c [unfolded that] Cons.prems(2) Cons.prems(3)] .
  then show ?case using rest o by auto
qed

text \<open>
  C8. After \<open>deleteFile fid\<close> has returned, no record is stored under \<open>fid\<close>, and \<open>fid\<close>
  is not among the ids of the records \<open>listFiles\<close> returns: neither right after the
  call, nor in any \<open>listFiles\<close> call among the calls \<open>cs\<close> made afterwards, nor after
  them, as long as none of these calls is an upload that returns \<open>fid\<close>.
\<close>

theorem delete_removes_record:
  assumes ok: "registry_ok (fileRegistry fm)"
    and del: "FileManager_deleteFile S fid opts (fm, w) = (Inr b, mw1)"
    and later: "FileManager_calls S cs mw1 = (outs, mw2)"
    and noup: "Uploaded (Inr fid) \<notin> set outs"
  shows "Map_get (fileRegistry (fst mw1)) fid = None \<and>
         fid \<notin> set (listed_ids mw1) \<and>
         (\<forall>recs. Listed (Inr recs) \<in> set outs \<longrightarrow> fid \<notin> fi_id ` set recs) \<and>
         fid \<notin> set (listed_ids mw2)"
proof -
  from del have reg: "fileRegistry (fst mw1) = Map_delete fid (fileRegistry fm)"
    by (cases rule: delete_cases) simp_all
  have ok1: "registry_ok (fileRegistry (fst mw1))"
    unfolding reg using ok by (rule registry_ok_delete)
  have a1: "fid \<notin> fst ` set (fileRegistry (fst mw1))"
    unfolding reg by (simp add: Map_delete_keys)
  from calls_preserve [OF later ok1 a1 noup]
  have ok2: "registry_ok (fileRegistry (fst mw2))"
    and a2: "fid \<notin> fst ` set (fileRegistry (fst mw2))"
    and l: "\<forall>recs. Listed (Inr recs) \<in> set outs \<longrightarrow> fid \<notin> fi_id ` set recs"
    by simp_all
  show ?thesis
    using a1 a2 l registry_ok_ids [OF ok1] registry_ok_ids [OF ok2]
    by (simp add: listed_ids_eq Map_get_None)
qed

lemma Map_get_set: "Map_get (Map_set k v m) k = Some v"
  by (induction m) (auto simp: Map_get_def)

lemma Storage_upload_local:
  assumes "storageType st = ''ipfs''" and "usingMock st \<or> ipfs st = None"
    and "fs w p = Some content"
  shows "Storage_uploadFile c cl p opts (st, w) =
           (Inr (fst (mockUploadFile c p content opts (st, w))),
            snd (mockUploadFile c p content opts (st, w)))"
  using assms
  by (auto simp: Storage_uploadFile_def Storage_uploadFile_try_def fs_access_def
      fs_readFile_def Let_def split: option.splits bool.splits)

lemma Map_get_set_other: "k' \<noteq> k \<Longrightarrow> Map_get (Map_set k v m) k' = Map_get m k'"
  by (induction m) (auto simp: Map_get_def)

lemma Map_get_delete_other: "k' \<noteq> k \<Longrightarrow> Map_get (Map_delete k m) k' = Map_get m k'"
  by (induction m) (auto simp: Map_get_def Map_delete_def)

text \<open>
  On the local store \<open>downloadFile\<close> leaves the store as it is, and whether it throws
  is a matter of the destination alone.
\<close>

lemma Storage_download_local:
  assumes "local_store st"
  shows "Storage_downloadFile F cl fid destination opts (st, w) =
           (case ensureDir_error F destination w of
              Some e \<Rightarrow> (Inl (Failed_to_download e), st, w)
            | None \<Rightarrow>
                (case fs_writeFile_checked F destination
                        (case Map_get (files st) fid of
                           None \<Rightarrow> string_bytes (''Mock content for file ID: '' @ fid)
                         | Some fileInfo \<Rightarrow> sf_content fileInfo) w of
                   Inl e \<Rightarrow> (Inl e, st, w)
                 | Inr w' \<Rightarrow> (Inr destination, st, w')))"
  using assms
  by (auto simp: local_store_def Storage_downloadFile_def Storage_downloadFile_try_def
      mockDownloadFile_def fs_ensureDir_dirname_def Let_def
      split: option.splits bool.splits sum.splits)

lemma Storage_download_accepted:
  assumes "storageType st = ''ipfs''" and "ensureDir_error F destination w = None"
    and "destination \<noteq> []" and "writeFile_error F destination w = None"
  shows "fst (Storage_downloadFile F cl fid destination opts (st, w)) = Inr destination"
  using assms
  by (auto simp: Storage_downloadFile_def Storage_downloadFile_try_def mockDownloadFile_def
      fs_ensureDir_dirname_def fs_writeFile_checked_def Let_def
      split: option.splits bool.splits sum.splits prod.splits)

lemma Storage_upload_local_store:
  assumes "local_store st"
  shows "local_store (fst (snd (Storage_uploadFile c cl p opts (st, w)))) \<and>
         (case fst (Storage_uploadFile c cl p opts (st, w)) of
            Inl e \<Rightarrow> files (fst (snd (Storage_uploadFile c cl p opts (st, w)))) = files st
          | Inr j \<Rightarrow>
              (\<forall>k. k \<noteq> j \<longrightarrow>
                 Map_get (files (fst (snd (Storage_uploadFile c cl p opts (st, w))))) k =
                 Map_get (files st) k) \<and>
              map_option sf_content
                (Map_get (files (fst (snd (Storage_uploadFile c cl p opts (st, w))))) j) = fs w p)"
proof (cases "fs w p")
  case None
  with assms show ?thesis
    by (simp add: Storage_uploadFile_def Storage_uploadFile_try_def fs_access_def)
next
  case (Some content)
  have "Storage_uploadFile c cl p opts (st, w) =
           (Inr (fst (mockUploadFile c p content opts (st, w))),
            snd (mockUploadFile c p content opts (st, w)))"
    using assms(1) Some by (intro Storage_upload_local) (simp_all add: local_store_def)
  with assms Some show ?thesis
    by (simp add: mockUploadFile_def Let_def local_store_def Map_get_set Map_get_set_other)
qed

lemma Storage_delete_local_store:
  assumes "local_store st"
  shows "local_store (fst (snd (Storage_deleteFile cl j opts (st, w)))) \<and>
         (\<forall>k. k \<noteq> j \<longrightarrow>
            Map_get (files (fst (snd (Storage_deleteFile cl j opts (st, w))))) k =
            Map_get (files st) k)"
  using assms
  by (auto simp: local_store_def Storage_deleteFile_def Storage_deleteFile_try_def
      mockDeleteFile_def Let_def Map_get_delete_other split: option.splits bool.splits)

lemma Storage_download_local_store:
  assumes "local_store st"
  shows "fst (snd (Storage_downloadFile F cl j d opts (st, w))) = st"
  unfolding Storage_download_local [OF assms]
  by (simp split: option.splits sum.splits)

lemma Storage_call_keeps:
  assumes k: "keeps (fst sw) i content"
    and n: "fst (Storage_call c F cl x sw) \<noteq> Put_done (Inr i)" and r: "\<not> removes i x"
  shows "keeps (fst (snd (Storage_call c F cl x sw))) i content"
proof (cases x)
  case (Put p opts)
  from k have l: "local_store (fst sw)" by (simp add: keeps_def)
  show ?thesis
  proof (cases "fst (Storage_uploadFile c cl p opts sw)")
    case (Inl e)
    with Storage_upload_local_store [OF l, of c cl p opts "snd sw"] k Put show ?thesis
      by (simp add: keeps_def Let_def)
  next
    case (Inr j)
    with n Put have "i \<noteq> j" by (auto simp: Let_def)
    with Storage_upload_local_store [OF l, of c cl p opts "snd sw"] k Put Inr show ?thesis
      by (simp add: keeps_def Let_def)
  qed
next
  case (Get j d opts)
  from k have l: "local_store (fst sw)" by (simp add: keeps_def)
  from Storage_download_local_store [OF l, of F cl j d opts "snd sw"] k Get show ?thesis
    by (simp add: Let_def)
next
  case (Remove j opts)
  from k have l: "local_store (fst sw)" by (simp add: keeps_def)
  from r Remove have "i \<noteq> j" by auto
  with Storage_delete_local_store [OF l, of cl j opts "snd sw"] k Remove show ?thesis
    by (simp add: keeps_def Let_def)
qed

lemma Storage_calls_keeps:
  "keeps (fst sw) i content \<Longrightarrow> Put_done (Inr i) \<notin> set (fst (Storage_calls c F cl xs sw)) \<Longrightarrow>
   \<forall>x \<in> set xs. \<not> removes i x \<Longrightarrow>
   keeps (fst (snd (Storage_calls c F cl xs sw))) i content"
proof (induction xs arbitrary: sw)
  case Nil
  then show ?case by simp
next
  case (Cons x xs)
  from Cons.prems have a: "fst (Storage_call c F cl x sw) \<noteq> Put_done (Inr i)"
    and b: "Put_done (Inr i) \<notin> set (fst (Storage_calls c F cl xs (snd (Storage_call c F cl x sw))))"
    and r: "\<not> removes i x" and rs: "\<forall>x \<in> set xs. \<not> removes i x"
    by (auto simp: Let_def)
  from Storage_call_keeps [OF Cons.prems(1) a r]
  have "keeps (fst (snd (Storage_call c F cl x sw))) i content" .
  from Cons.IH [OF this b rs] show ?case by (simp add: Let_def)
qed



lemma test_storage_local: "storageType test_storage = ''ipfs''" "usingMock test_storage"
  by (simp_all add: test_storage_def)

lemma test_local_store: "local_store test_storage"
  by (simp add: local_store_def test_storage_def)

lemma test_text_file: "fs test_world ''/tmp/a.txt'' = Some (string_bytes test_text)"
  by (simp add: test_world_def)

lemma test_store_upload:
  "fst (Storage_uploadFile test_crypto test_ipfs ''/tmp/a.txt'' no_options
         (test_storage, test_world)) = Inr ''mock-aaaaaaaa''"
  by (simp add: Storage_upload_local [OF test_storage_local(1) disjI1 [OF test_storage_local(2)]
        test_text_file] mockUploadFile_def Let_def or_string_def no_options_def
      generateMockFileId_def test_crypto_def replicate_numeral)

lemma test_store_calls:
  "fst (Storage_calls test_crypto test_fs test_ipfs test_calls
         (snd (Storage_uploadFile test_crypto test_ipfs ''/tmp/a.txt'' no_options
                (test_storage, test_world)))) =
     [Put_done (Inr ''other''), Get_done (Inr ''/tmp/o2''), Get_done (Inl (EISDIR ''/tmp'')),
      Remove_done (Inr True)]"
  by (simp add: Storage_upload_local [OF test_storage_local(1) disjI1 [OF test_storage_local(2)]
        test_text_file] test_calls_def Let_def mockUploadFile_def
      Storage_uploadFile_def Storage_uploadFile_try_def fs_access_def fs_readFile_def
      fs_writeFile_def test_world_def test_storage_def or_string_def no_options_def
      Storage_downloadFile_def Storage_downloadFile_try_def mockDownloadFile_def
      fs_ensureDir_dirname_def fs_writeFile_checked_def test_fs_def
      Storage_deleteFile_def Storage_deleteFile_try_def mockDeleteFile_def path_join_def
      Map_get_def)





lemma uuid_not_custom: "is_uuid_v4 x \<Longrightarrow> x \<noteq> ''custom''"
  by (auto simp: is_uuid_v4_def)

lemma upload_returns_supplied:
  assumes "fileId opts = Some i" and "i \<noteq> []"
    and "FileManager_uploadFile S p opts mw = (Inr r, mw')"
  shows "r = i"
  using assms
  by (auto simp: FileManager_uploadFile_def FileManager_uploadFile_try_def Let_def
      split: sum.splits prod.splits if_splits)

text \<open>
  C9, as amended. An upload with a supplied id that is not the empty string returns
  exactly that id. After an upload of a file without a supplied id, which returns a
  version-4 UUID \<open>x\<close>, and an upload of the same file with the id "custom", \<open>listFiles\<close>
  has a record with id \<open>x\<close> and a record with id "custom", which are different; from
  an empty registry these are its two records.
\<close>

theorem upload_supplied_id:
  "(fileId opts = Some i \<and> i \<noteq> [] \<and> FileManager_uploadFile S p opts mw = (Inr r, mw') \<longrightarrow>
      r = i) \<and>
   (fileId opts1 = None \<and> FileManager_uploadFile S fileA opts1 mw0 = (Inr x, mw1) \<and>
    is_uuid_v4 x \<and>
    fileId opts2 = Some ''custom'' \<and> FileManager_uploadFile S fileA opts2 mw1 = (Inr y, mw2) \<longrightarrow>
      y = ''custom'' \<and> x \<noteq> y \<and> x \<in> set (listed_ids mw2) \<and> y \<in> set (listed_ids mw2) \<and>
      (fileRegistry (fst mw0) = [] \<longrightarrow> listed_ids mw2 = [x, y]))"
proof (rule conjI)
  show "fileId opts = Some i \<and> i \<noteq> [] \<and>
        FileManager_uploadFile S p opts mw = (Inr r, mw') \<longrightarrow> r = i"
    using upload_returns_supplied by blast
next
  have "y = ''custom'' \<and> x \<noteq> y \<and> x \<in> set (listed_ids mw2) \<and> y \<in> set (listed_ids mw2) \<and>
      (fileRegistry (fst mw0) = [] \<longrightarrow> listed_ids mw2 = [x, y])" if a: "fileId opts1 = None \<and> FileManager_uploadFile S fileA opts1 mw0 = (Inr x, mw1) \<and>
    is_uuid_v4 x \<and>
    fileId opts2 = Some ''custom'' \<and> FileManager_uploadFile S fileA opts2 mw1 = (Inr y, mw2)"
  proof -
  from a have u1: "FileManager_uploadFile S fileA opts1 mw0 = (Inr x, mw1)"
    and u2: "FileManager_uploadFile S fileA opts2 mw1 = (Inr y, mw2)"
    and id2: "fileId opts2 = Some ''custom''" and ux: "is_uuid_v4 x"
    by simp_all
  have y: "y = ''custom''" using upload_returns_supplied [OF id2 _ u2] by simp
  have xy: "x \<noteq> y" using uuid_not_custom [OF ux] y by simp
  from u1 obtain v1 where v1: "fi_id v1 = x"
    and r1: "fileRegistry (fst mw1) = Map_set x v1 (fileRegistry (fst mw0))"
    by (cases rule: upload_cases) auto
  from u2 obtain v2 where v2: "fi_id v2 = y"
    and r2: "fileRegistry (fst mw2) = Map_set y v2 (fileRegistry (fst mw1))"
    by (cases rule: upload_cases) auto
  have m0: "(x, v1) \<in> set (fileRegistry (fst mw1))" unfolding r1 by (rule Map_set_mem)
  have m1: "(x, v1) \<in> set (fileRegistry (fst mw2))"
    unfolding r2 using Map_set_other [OF m0, of y v2] xy by simp
  have m2: "(y, v2) \<in> set (fileRegistry (fst mw2))" unfolding r2 by (rule Map_set_mem)
  have lx: "x \<in> set (listed_ids mw2)"
    using m1 v1 by (force simp: listed_ids_eq Map_values_def)
  have ly: "y \<in> set (listed_ids mw2)"
    using m2 v2 by (force simp: listed_ids_eq Map_values_def)
  have e: "listed_ids mw2 = [x, y]" if "fileRegistry (fst mw0) = []"
    using that r1 r2 v1 v2 xy by (simp add: listed_ids_eq Map_values_def)
  show ?thesis
    using y xy lx ly e by simp
  qed
  then show "fileId opts1 = None \<and> FileManager_uploadFile S fileA opts1 mw0 = (Inr x, mw1) \<and>
    is_uuid_v4 x \<and>
    fileId opts2 = Some ''custom'' \<and> FileManager_uploadFile S fileA opts2 mw1 = (Inr y, mw2) \<longrightarrow>
      y = ''custom'' \<and> x \<noteq> y \<and> x \<in> set (listed_ids mw2) \<and> y \<in> set (listed_ids mw2) \<and>
      (fileRegistry (fst mw0) = [] \<longrightarrow> listed_ids mw2 = [x, y])"
    by blast
qed

text \<open>With the \<open>Storage\<close> class on its local store, uploading an existing file succeeds.\<close>

lemma local_upload:
  assumes "fs (snd mw) p = Some content" and "storageType (storage (fst mw)) = ''ipfs''"
    and "usingMock (storage (fst mw)) \<or> ipfs (storage (fst mw)) = None"
  shows "\<exists>mw'. FileManager_uploadFile (Storage_class c F cl) p opts mw =
           (Inr (case fileId opts of
                   None \<Rightarrow> uuids (snd mw) 0
                 | Some s \<Rightarrow> if s = [] then uuids (snd mw) 0 else s), mw') \<and>
         fs (snd mw') p = Some content \<and> storageType (storage (fst mw')) = ''ipfs'' \<and>
         (usingMock (storage (fst mw')) \<or> ipfs (storage (fst mw')) = None)"
proof -
  have u: "st_uploadFile (Storage_class c F cl) p opts (storage (fst mw), snd mw) =
           (Inr (fst (mockUploadFile c p content opts (storage (fst mw), snd mw))),
            snd (mockUploadFile c p content opts (storage (fst mw), snd mw)))"
    using assms by (simp add: Storage_class_def Storage_upload_local)
  show ?thesis
    using assms
    by (auto simp: FileManager_uploadFile_def FileManager_uploadFile_try_def Let_def u
        fs_access_def fs_stat_size_def mockUploadFile_def fs_writeFile_def generateFileId_def
        split: option.splits)
qed

theorem upload_supplied_id_counterexample:
  "fileId (no_options\<lparr>fileId := Some ''''\<rparr>) = Some '''' \<and>
   fst (FileManager_uploadFile test_class ''/tmp/a.txt'' (no_options\<lparr>fileId := Some ''''\<rparr>)
         (FileManager_new test_storage, test_world)) =
     Inr ''9b1deb4d-3b7d-4bad-9bdd-2b0d7b3dcb6d''"
proof -
  have "\<exists>mw'. FileManager_uploadFile test_class ''/tmp/a.txt'' (no_options\<lparr>fileId := Some ''''\<rparr>)
         (FileManager_new test_storage, test_world) =
       (Inr (uuids test_world 0), mw')"
    using local_upload [of "(FileManager_new test_storage, test_world)" "''/tmp/a.txt''"
        "string_bytes test_text" test_crypto test_fs test_ipfs "no_options\<lparr>fileId := Some ''''\<rparr>"]
    by (auto simp: test_text_file FileManager_new_def test_storage_local test_class_def)
  then show ?thesis by (auto simp: test_world_def)
qed

theorem upload_supplied_id_witness:
  "\<exists>mw1 mw2.
     FileManager_uploadFile test_class ''/tmp/a.txt'' no_options
         (FileManager_new test_storage, test_world) =
       (Inr ''9b1deb4d-3b7d-4bad-9bdd-2b0d7b3dcb6d'', mw1) \<and>
     is_uuid_v4 ''9b1deb4d-3b7d-4bad-9bdd-2b0d7b3dcb6d'' \<and>
     FileManager_uploadFile test_class ''/tmp/a.txt'' (no_options\<lparr>fileId := Some ''custom''\<rparr>) mw1 =
       (Inr ''custom'', mw2) \<and>
     listed_ids mw2 = [''9b1deb4d-3b7d-4bad-9bdd-2b0d7b3dcb6d'', ''custom'']"
proof -
  let ?x = "''9b1deb4d-3b7d-4bad-9bdd-2b0d7b3dcb6d''"
  let ?o2 = "no_options\<lparr>fileId := Some ''custom''\<rparr>"
  obtain mw1 where u1: "FileManager_uploadFile test_class ''/tmp/a.txt'' no_options
         (FileManager_new test_storage, test_world) = (Inr ?x, mw1)"
    and f1: "fs (snd mw1) ''/tmp/a.txt'' = Some (string_bytes test_text)"
    and t1: "storageType (storage (fst mw1)) = ''ipfs''"
    and m1: "usingMock (storage (fst mw1)) \<or> ipfs (storage (fst mw1)) = None"
    using local_upload [of "(FileManager_new test_storage, test_world)" "''/tmp/a.txt''"
        "string_bytes test_text" test_crypto test_fs test_ipfs no_options]
    by (auto simp: test_text_file FileManager_new_def test_storage_local test_class_def
        no_options_def test_world_def)
  obtain mw2 where u2: "FileManager_uploadFile test_class ''/tmp/a.txt'' ?o2 mw1 =
         (Inr ''custom'', mw2)"
    using local_upload [OF f1 t1 m1, of test_crypto test_fs test_ipfs ?o2]
    by (auto simp: test_class_def no_options_def)
  have u: "is_uuid_v4 ?x" by (simp add: is_uuid_v4_def)
  have n: "fileId no_options = None" "fileId ?o2 = Some ''custom''"
    "fileRegistry (fst (FileManager_new test_storage, test_world)) = []"
    by (simp_all add: no_options_def FileManager_new_def)
  from upload_supplied_id [of ?o2 "''custom''" test_class "''/tmp/a.txt''" mw1 "''custom''" mw2
      no_options "''/tmp/a.txt''" "(FileManager_new test_storage, test_world)" ?x mw1 ?o2
      "''custom''" mw2]
  have "listed_ids mw2 = [?x, ''custom'']" using u1 u2 u n by simp
  then show ?thesis using u1 u2 u by blast
qed

lemma test_delete:
  "FileManager_deleteFile test_class ''report'' no_options (test_manager, test_world) =
     (Inr True, test_manager\<lparr>fileRegistry := []\<rparr>, test_world)"
  by (simp add: FileManager_deleteFile_def Let_def test_manager_def Map_get_def test_class_def
      Storage_class_def Storage_deleteFile_def Storage_deleteFile_try_def mockDeleteFile_def
      test_storage_def Map_delete_def)

theorem delete_removes_record_witness:
  "registry_ok (fileRegistry test_manager) \<and>
   ''report'' \<in> set (listed_ids (test_manager, test_world)) \<and>
   FileManager_deleteFile test_class ''report'' no_options (test_manager, test_world) =
     (Inr True, test_manager\<lparr>fileRegistry := []\<rparr>, test_world) \<and>
   fst (FileManager_calls test_class
          [List no_options, Upload ''/tmp/a.txt'' (no_options\<lparr>fileId := Some ''custom''\<rparr>)]
          (test_manager\<lparr>fileRegistry := []\<rparr>, test_world)) =
     [Listed (Inr []), Uploaded (Inr ''custom'')] \<and>
   ''report'' \<notin> set (listed_ids (snd (FileManager_calls test_class
          [List no_options, Upload ''/tmp/a.txt'' (no_options\<lparr>fileId := Some ''custom''\<rparr>)]
          (test_manager\<lparr>fileRegistry := []\<rparr>, test_world))))"
proof -
  let ?cs = "[List no_options, Upload ''/tmp/a.txt'' (no_options\<lparr>fileId := Some ''custom''\<rparr>)]"
  let ?mw1 = "(test_manager\<lparr>fileRegistry := []\<rparr>, test_world)"
  have ok: "registry_ok (fileRegistry test_manager)"
    by (simp add: registry_ok_def test_manager_def)
  have l: "''report'' \<in> set (listed_ids (test_manager, test_world))"
    by (simp add: listed_ids_eq Map_values_def test_manager_def)
  have "\<exists>mw'. FileManager_uploadFile test_class ''/tmp/a.txt''
           (no_options\<lparr>fileId := Some ''custom''\<rparr>) ?mw1 = (Inr ''custom'', mw')"
    using local_upload [of ?mw1 "''/tmp/a.txt''" "string_bytes test_text" test_crypto test_fs test_ipfs
        "no_options\<lparr>fileId := Some ''custom''\<rparr>"]
    by (auto simp: test_text_file test_manager_def test_storage_local test_class_def)
  then have outs: "fst (FileManager_calls test_class ?cs ?mw1) =
                     [Listed (Inr []), Uploaded (Inr ''custom'')]"
    by (auto simp: Let_def FileManager_listFiles_def Map_values_def)
  have c: "FileManager_calls test_class ?cs ?mw1 =
             (fst (FileManager_calls test_class ?cs ?mw1),
              snd (FileManager_calls test_class ?cs ?mw1))"
    by simp
  have n: "Uploaded (Inr ''report'') \<notin> set (fst (FileManager_calls test_class ?cs ?mw1))"
    unfolding outs by simp
  from delete_removes_record [OF ok test_delete c n]
  show ?thesis using ok l test_delete outs by simp
qed

end
